theory Spec2Isabelle
  imports Main
begin

section \<open>Go strings\<close>

text \<open>
  A Go \<open>string\<close> is a sequence of bytes, normally holding UTF-8 text. It is modelled
  as a \<open>char list\<close> (HOL characters are bytes). The functions of package \<open>strings\<close>
  that the source calls are given on these byte lists.
\<close>

definition asciiSpace :: "char \<Rightarrow> bool" where
  \<comment> \<open>the table \<open>asciiSpace\<close> of package strings: tab, LF, VT, FF, CR and blank\<close>
  "asciiSpace c \<longleftrightarrow> c \<in> set [CHR 0x09, CHR 0x0A, CHR 0x0B, CHR 0x0C, CHR 0x0D, CHR 0x20]"

definition spaceRunes :: "string list" where
  \<comment> \<open>the UTF-8 encodings of the code points for which \<open>unicode.IsSpace\<close> holds:
      the six ASCII ones, U+0085, U+00A0, U+1680, U+2000 to U+200A, U+2028, U+2029,
      U+202F, U+205F and U+3000\<close>
  "spaceRunes =
     [[CHR 0x09], [CHR 0x0A], [CHR 0x0B], [CHR 0x0C], [CHR 0x0D], [CHR 0x20],
      [CHR 0xC2, CHR 0x85], [CHR 0xC2, CHR 0xA0],
      [CHR 0xE1, CHR 0x9A, CHR 0x80],
      [CHR 0xE2, CHR 0x80, CHR 0x80], [CHR 0xE2, CHR 0x80, CHR 0x81],
      [CHR 0xE2, CHR 0x80, CHR 0x82], [CHR 0xE2, CHR 0x80, CHR 0x83],
      [CHR 0xE2, CHR 0x80, CHR 0x84], [CHR 0xE2, CHR 0x80, CHR 0x85],
      [CHR 0xE2, CHR 0x80, CHR 0x86], [CHR 0xE2, CHR 0x80, CHR 0x87],
      [CHR 0xE2, CHR 0x80, CHR 0x88], [CHR 0xE2, CHR 0x80, CHR 0x89],
      [CHR 0xE2, CHR 0x80, CHR 0x8A],
      [CHR 0xE2, CHR 0x80, CHR 0xA8], [CHR 0xE2, CHR 0x80, CHR 0xA9],
      [CHR 0xE2, CHR 0x80, CHR 0xAF],
      [CHR 0xE2, CHR 0x81, CHR 0x9F],
      [CHR 0xE3, CHR 0x80, CHR 0x80]]"

definition HasPrefix :: "string \<Rightarrow> string \<Rightarrow> bool" where
  \<comment> \<open>\<open>strings.HasPrefix(s, prefix)\<close>\<close>
  "HasPrefix s p \<longleftrightarrow> take (length p) s = p"

definition HasSuffix :: "string \<Rightarrow> string \<Rightarrow> bool" where
  \<comment> \<open>\<open>strings.HasSuffix(s, suffix)\<close>\<close>
  "HasSuffix s p \<longleftrightarrow> length p \<le> length s \<and> drop (length s - length p) s = p"

definition leadingSpace :: "string \<Rightarrow> string option" where
  \<comment> \<open>the encoding of the white-space code point that \<open>s\<close> begins with, if any\<close>
  "leadingSpace s = List.find (\<lambda>p. HasPrefix s p) spaceRunes"

definition trailingSpace :: "string \<Rightarrow> string option" where
  \<comment> \<open>the encoding of the white-space code point that \<open>s\<close> ends with, if any\<close>
  "trailingSpace s = List.find (\<lambda>p. HasSuffix s p) spaceRunes"

lemma spaceRunes_nonempty: "p \<in> set spaceRunes \<Longrightarrow> p \<noteq> []"
  by (auto simp: spaceRunes_def)

lemma leadingSpace_shorter:
  assumes "leadingSpace s = Some p"
  shows "length s - length p < length s"
proof -
  from assms have "p \<in> set spaceRunes" and "HasPrefix s p"
    by (auto simp: leadingSpace_def find_Some_iff)
  then have "p \<noteq> []" and "take (length p) s = p"
    by (auto simp: spaceRunes_nonempty HasPrefix_def)
  then have "length (take (length p) s) = length p" by simp
  with \<open>p \<noteq> []\<close> have "0 < length p" and "length p \<le> length s" by auto
  then show ?thesis by arith
qed

lemma trailingSpace_shorter:
  assumes "trailingSpace s = Some p"
  shows "length s - length p < length s"
proof -
  from assms have "p \<in> set spaceRunes" and "HasSuffix s p"
    by (auto simp: trailingSpace_def find_Some_iff)
  then have "0 < length p" and "length p \<le> length s"
    by (auto simp: spaceRunes_nonempty HasSuffix_def)
  then show ?thesis by arith
qed

function TrimLeftSpace :: "string \<Rightarrow> string" where
  \<comment> \<open>\<open>strings.TrimLeftFunc(s, unicode.IsSpace)\<close>: drop white-space code points from
      the front for as long as there is one\<close>
  "TrimLeftSpace s =
     (case leadingSpace s of
        None \<Rightarrow> s
      | Some p \<Rightarrow> TrimLeftSpace (drop (length p) s))"
  by pat_completeness auto
termination
  by (relation "measure length") (auto simp: leadingSpace_shorter)

declare TrimLeftSpace.simps [simp del]

function TrimRightSpace :: "string \<Rightarrow> string" where
  \<comment> \<open>\<open>strings.TrimRightFunc(s, unicode.IsSpace)\<close>: drop white-space code points from
      the back for as long as there is one\<close>
  "TrimRightSpace s =
     (case trailingSpace s of
        None \<Rightarrow> s
      | Some p \<Rightarrow> TrimRightSpace (take (length s - length p) s))"
  by pat_completeness auto
termination
  by (relation "measure length") (auto simp: trailingSpace_shorter)

declare TrimRightSpace.simps [simp del]

definition TrimSpace :: "string \<Rightarrow> string" where
  \<comment> \<open>\<open>strings.TrimSpace(s)\<close>: all leading and all trailing white space removed\<close>
  "TrimSpace s = TrimRightSpace (TrimLeftSpace s)"

definition TrimSuffix :: "string \<Rightarrow> string \<Rightarrow> string" where
  \<comment> \<open>\<open>strings.TrimSuffix(s, suffix)\<close>: one trailing \<open>suffix\<close> removed when present\<close>
  "TrimSuffix s p = (if HasSuffix s p then take (length s - length p) s else s)"

fun SplitLines :: "string \<Rightarrow> string list" where
  \<comment> \<open>\<open>strings.Split(s, "\n")\<close>: the pieces between line feeds; one more piece than
      there are line feeds, so the empty string gives one empty piece\<close>
  "SplitLines [] = [[]]"
| "SplitLines (c # cs) =
     (if c = CHR 0x0A then [] # SplitLines cs
      else (case SplitLines cs of
              [] \<Rightarrow> [[c]]
            | l # ls \<Rightarrow> (c # l) # ls))"

fun ReplaceFirst :: "string \<Rightarrow> char \<Rightarrow> string \<Rightarrow> string" where
  \<comment> \<open>\<open>strings.Replace(s, old, new, 1)\<close> for a one-byte \<open>old\<close>: the first occurrence
      replaced\<close>
  "ReplaceFirst [] old new = []"
| "ReplaceFirst (c # cs) old new =
     (if c = old then new @ cs else c # ReplaceFirst cs old new)"

fun ReplaceAllCRLF :: "string \<Rightarrow> string" where
  \<comment> \<open>\<open>strings.ReplaceAll(s, "\r\n", "\n")\<close>: scanning from the left, every
      carriage return that a line feed follows is dropped\<close>
  "ReplaceAllCRLF [] = []"
| "ReplaceAllCRLF [c] = [c]"
| "ReplaceAllCRLF (c # d # cs) =
     (if c = CHR 0x0D \<and> d = CHR 0x0A then CHR 0x0A # ReplaceAllCRLF cs
      else c # ReplaceAllCRLF (d # cs))"

section \<open>The environment of a run\<close>

text \<open>
  The program talks to a terminal, a file system, an ssh-agent socket and to packages
  that are not part of the source under study. What these answer is a parameter of the
  model: the record \<open>env\<close> holds the answers that do not change during a run, the record
  \<open>sys\<close> the state that the program reads and changes. \<open>log.Debugf\<close> lines are left
  out; every other write to the terminal or the log is an \<open>event\<close>.
\<close>

datatype signer = Signer string
  \<comment> \<open>an \<open>ssh.Signer\<close>, named by the key it was parsed from\<close>

datatype conn = Conn nat
  \<comment> \<open>a \<open>net.Conn\<close> to the agent socket; the number tells the connections apart\<close>

datatype parsed = Parsed signer | PassphraseMissing string | ParseFailed string
  \<comment> \<open>what \<open>ssh.ParsePrivateKey\<close> returns: a signer, a \<open>*ssh.PassphraseMissingError\<close>,
      or another error\<close>

datatype AuthMethod =
    ssh_Password string
  | ssh_PublicKeys "signer list"
  | ssh_PublicKeysCallback conn
  \<comment> \<open>\<open>ssh.Password(p)\<close>, \<open>ssh.PublicKeys(signers...)\<close> and
      \<open>ssh.PublicKeysCallback(agent.NewClient(c).Signers)\<close>\<close>

datatype event =
    Stdout string
  | Stderr string
  | LogWarn string
  | LogHostInfo string string string
  | LogHostError string string string
  | LogSummary nat nat nat
  \<comment> \<open>\<open>LogHostInfo\<close> and \<open>LogHostError\<close> carry the fields hostname, status and output
      of the context logger; \<open>LogSummary\<close> the success count, the failure count and the
      elapsed time\<close>

record env =
  Getenv :: "string \<Rightarrow> string"
  DialUnix :: "string \<Rightarrow> string option"
  ParsePrivateKey :: "string \<Rightarrow> parsed"
  ParseEncryptedPrivateKey :: "string \<Rightarrow> string \<Rightarrow> string + signer"
  IsAES256CipherText :: "string \<Rightarrow> bool"
  AES256Decode :: "string \<Rightarrow> string \<Rightarrow> string + string"
  AES256Encode :: "string \<Rightarrow> string \<Rightarrow> string + string"
  GetVaultPassword :: "string + string"
  getVaultConfirmPassword :: "string + string"
  PatternToHosts :: "string \<Rightarrow> string + string list"
  DirExists :: "string \<Rightarrow> bool"
  MkdirAll :: "string \<Rightarrow> string option"
  OpenFileErr :: "string \<Rightarrow> string option"
  WriteErr :: "string \<Rightarrow> string option"
  Elapsed :: nat

text \<open>
  \<^item> \<open>Getenv\<close> is \<open>os.Getenv\<close>; \<open>DialUnix p\<close> is the error of \<open>net.Dial("unix", p)\<close>, if
    it fails.
  \<^item> \<open>ParsePrivateKey\<close> and \<open>ParseEncryptedPrivateKey\<close> are the key parsers of
    \<open>golang.org/x/crypto/ssh\<close> and \<open>github.com/ScaleFT/sshkeys\<close>, taking the bytes of the
    key file (and the passphrase).
  \<^item> \<open>IsAES256CipherText\<close>, \<open>AES256Decode\<close> and \<open>AES256Encode\<close> are the functions of
    package \<open>internal/pkg/aes\<close>; a left value is the error they return.
  \<^item> \<open>GetVaultPassword\<close> and \<open>getVaultConfirmPassword\<close> are the two functions of package
    \<open>vault\<close> that obtain the vault passphrase; a left value is the message they leave the
    process with when they fail.
  \<^item> \<open>PatternToHosts\<close> is \<open>expandhost.PatternToHosts\<close> of
    \<open>github.com/go-project-pkg/expandhost\<close>.
  \<^item> \<open>DirExists\<close> is \<open>util.DirExists\<close>; \<open>MkdirAll\<close>, \<open>OpenFileErr\<close> and \<open>WriteErr\<close> give the
    error of \<open>os.MkdirAll\<close>, \<open>os.OpenFile\<close> and of writing to the opened file, if any.
  \<^item> \<open>Elapsed\<close> is the reading \<open>time.Since(timeNow).Seconds()\<close> takes; the model does
    not compute with it.
\<close>

record sys =
  tty :: "(string + string) list"
  fsys :: "string \<rightharpoonup> string"
  dialled :: nat
  closed :: "conn list"
  events :: "event list"

text \<open>
  \<^item> \<open>tty\<close>: what the coming calls of \<open>term.ReadPassword(0)\<close> return, in order: the line
    typed, or (left) the error; when the list is used up the terminal is at its end.
  \<^item> \<open>fsys\<close>: the content of each readable file.
  \<^item> \<open>dialled\<close>: how many connections to the agent socket have been opened; connection
    \<open>Conn i\<close> is the \<open>i\<close>-th. \<open>closed\<close>: the connections \<open>Close\<close> was called on, one
    entry for each call.
  \<^item> \<open>events\<close>: what was written so far, oldest first.
\<close>

datatype 'a outcome = Exit string sys | Ok 'a sys
  \<comment> \<open>a call either ends the process (\<open>os.Exit\<close>, with the message printed) or returns a
      value; both leave a state\<close>

definition emit :: "event \<Rightarrow> sys \<Rightarrow> sys" where
  "emit e s = s\<lparr>events := events s @ [e]\<rparr>"

definition CheckErr :: "string option \<Rightarrow> sys \<Rightarrow> unit outcome" where
  \<comment> \<open>Modelled from the spec: \<open>util.CheckErr\<close> (package \<open>pkg/util\<close>) is not in the source
      under study. The spec's error policy is that an error met before the fan-out ends
      the task with a single message and a non-zero exit; accordingly a non-nil argument
      ends the process with that message and a nil argument does nothing.\<close>
  "CheckErr err s = (case err of None \<Rightarrow> Ok () s | Some msg \<Rightarrow> Exit msg s)"

text \<open>
  Where the source writes \<open>x, err := f(...)\<close> followed by \<open>util.CheckErr(err)\<close> and then
  uses \<open>x\<close>, the model takes the cases of the result of \<open>f\<close>, and its error case is the
  exit that \<open>CheckErr\<close> makes.
\<close>

definition ReadFile :: "string \<Rightarrow> sys \<Rightarrow> string + string" where
  \<comment> \<open>\<open>ioutil.ReadFile\<close>: the content, or (left) an error\<close>
  "ReadFile name s =
     (case fsys s name of
        None \<Rightarrow> Inl (''open '' @ name @ '': no such file or directory'')
      | Some content \<Rightarrow> Inr content)"

record ConfigFlags =
  Auth_User :: string
  Auth_Password :: string
  Auth_AskPass :: bool
  Auth_PassFile :: string
  Auth_IdentityFiles :: "string list"
  Auth_Passphrase :: string
  Hosts_File :: string
  Hosts_Port :: int
  Hosts_List :: bool
  Run_Sudo :: bool
  Run_AsUser :: string
  Run_Lang :: string
  Run_Concurrency :: int
  Proxy_Server :: string
  Proxy_Port :: int
  Proxy_User :: string
  Proxy_Password :: string
  Proxy_IdentityFiles :: "string list"
  Proxy_Passphrase :: string
  Timeout_Conn :: int
  Timeout_Command :: int
  Timeout_Task :: int
  \<comment> \<open>the fields of \<open>configflags.ConfigFlags\<close> that the source reads, each named by its
      section and field (\<open>configFlags.Auth.User\<close> is \<open>Auth_User\<close>)\<close>

section \<open>Resolving the login password\<close>

definition getPasswordFromPrompt :: "string \<Rightarrow> sys \<Rightarrow> string outcome" where
  "getPasswordFromPrompt loginUser s =
     (let s1 = emit (Stderr (''Password for '' @ loginUser @ '': '')) s in
      case tty s1 of
        [] \<Rightarrow> Exit ''get password from terminal failed: EOF'' s1
      | r # rest \<Rightarrow>
          (let s2 = s1\<lparr>tty := rest\<rparr> in
           case r of
             Inl e \<Rightarrow> Exit (''get password from terminal failed: '' @ e) s2
           | Inr password \<Rightarrow> Ok password (emit (Stdout [CHR 0x0A]) s2)))"

definition assignRealPass :: "env \<Rightarrow> string \<Rightarrow> sys \<Rightarrow> string outcome" where
  "assignRealPass E pass s =
     (if IsAES256CipherText E pass then
        (case GetVaultPassword E of
           Inl msg \<Rightarrow> Exit msg s
         | Inr vaultPass \<Rightarrow>
             (case AES256Decode E pass vaultPass of
                Inl e \<Rightarrow> Exit e s
              | Inr plain \<Rightarrow> Ok plain s))
      else Ok pass s)"

definition passwordFromFile :: "ConfigFlags \<Rightarrow> sys \<Rightarrow> string \<times> string option" where
  \<comment> \<open>the first block of \<open>getPassword\<close>: the password read from \<open>Auth.PassFile\<close> and the
      error of reading it. A failed read leaves the content empty and the function goes
      on.\<close>
  "passwordFromFile cf s =
     (if Auth_PassFile cf \<noteq> [] then
        (case ReadFile (Auth_PassFile cf) s of
           Inl e \<Rightarrow>
             (TrimSpace [],
              Some (''read auth file '' @ [CHR 0x27] @ Auth_PassFile cf @ [CHR 0x27] @
                    '' failed: '' @ e))
         | Inr passwordContent \<Rightarrow> (TrimSpace passwordContent, None))
      else ([], None))"

definition getPassword :: "env \<Rightarrow> ConfigFlags \<Rightarrow> sys \<Rightarrow> (string \<times> string option) outcome" where
  \<comment> \<open>returns the pair \<open>(password, err)\<close> of the source's named results\<close>
  "getPassword E cf s =
     (let (password0, err) = passwordFromFile cf s;
          passwordFromFlag = Auth_Password cf;
          password1 = (if passwordFromFlag \<noteq> [] then passwordFromFlag else password0)
      in case assignRealPass E password1 s of
           Exit msg s' \<Rightarrow> Exit msg s'
         | Ok password2 s2 \<Rightarrow>
             (if Auth_AskPass cf then
                (case getPasswordFromPrompt (Auth_User cf) s2 of
                   Exit msg s' \<Rightarrow> Exit msg s'
                 | Ok password3 s3 \<Rightarrow> Ok (password3, err) s3)
              else Ok (password2, err) s2))"

definition chosenPassword :: "ConfigFlags \<Rightarrow> sys \<Rightarrow> string" where
  \<comment> \<open>the value of \<open>password\<close> when \<open>getPassword\<close> reaches \<open>assignRealPass\<close>: the flag
      when it is set, the file's otherwise\<close>
  "chosenPassword cf s =
     (if Auth_Password cf \<noteq> [] then Auth_Password cf else fst (passwordFromFile cf s))"

definition claimedPassword :: "ConfigFlags \<Rightarrow> sys \<Rightarrow> string" where
  \<comment> \<open>the password as the specification words it: the prompted value when \<open>askPass\<close> is
      set; otherwise the flag when non-empty; otherwise the content of the password file
      with trailing white space removed\<close>
  "claimedPassword cf s =
     (if Auth_AskPass cf then (case tty s of Inr typed # rest \<Rightarrow> typed | _ \<Rightarrow> [])
      else if Auth_Password cf \<noteq> [] then Auth_Password cf
      else TrimRightSpace (case fsys s (Auth_PassFile cf) of None \<Rightarrow> [] | Some c \<Rightarrow> c))"

definition afterPrompt :: "string \<Rightarrow> sys \<Rightarrow> sys" where
  \<comment> \<open>the state that a successful \<open>getPasswordFromPrompt\<close> leaves: the prompt written
      to stderr, one line of the terminal consumed, a line feed written to stdout\<close>
  "afterPrompt u s =
     emit (Stdout [CHR 0x0A]) ((emit (Stderr (''Password for '' @ u @ '': '')) s)\<lparr>tty := tl (tty s)\<rparr>)"

section \<open>Assembling the authentication methods\<close>

datatype TaskType = CommandTask | ScriptTask | PushTask | FetchTask

record pushFiles =
  files :: "string list"
  zipFiles :: "string list"

record Client =
  client_user :: string
  client_password :: string
  client_auths :: "AuthMethod list"
  client_connTimeout :: int
  client_commandTimeout :: int
  client_concurrency :: int
  client_port :: int
  client_proxy :: "(string \<times> string \<times> int \<times> AuthMethod list) option"
  \<comment> \<open>what \<open>batchssh.NewClient\<close> is given: user, password, auths and the options;
      \<open>client_proxy\<close> is the argument of \<open>WithProxyServer\<close> (server, user, port, auths)\<close>

record Task =
  configFlags :: ConfigFlags
  taskID :: string
  taskType :: TaskType
  sshClient :: "Client option"
  sshAgent :: "conn option"
  hosts :: "string list"
  command :: string
  scriptFile :: string
  pushFiles :: "pushFiles option"
  fetchFiles :: "string list"
  dstDir :: string
  err :: "string option"
  \<comment> \<open>the struct \<open>Task\<close>; \<open>taskID\<close> is its field \<open>id\<close>. The two channels are part of the
      state of a run (below). The fields \<open>tmpDir\<close>, \<open>remove\<close> and \<open>allowOverwrite\<close> are
      only handed to the ssh client by \<open>RunSSH\<close> and are left out.\<close>

definition NewTask :: "string \<Rightarrow> TaskType \<Rightarrow> ConfigFlags \<Rightarrow> Task" where
  \<comment> \<open>\<open>NewTask\<close>; the first argument is the time stamp that becomes the task's id\<close>
  "NewTask now ty cf =
     \<lparr>configFlags = cf, taskID = now, taskType = ty, sshClient = None, sshAgent = None,
      hosts = [], command = [], scriptFile = [], pushFiles = None, fetchFiles = [],
      dstDir = [], err = None\<rparr>"

definition expandHome :: "string \<Rightarrow> string \<Rightarrow> string" where
  \<comment> \<open>the body of the loop of \<open>getItentityFiles\<close> and \<open>getProxyItentityFiles\<close>\<close>
  "expandHome homeDir file' =
     (if HasPrefix file' ''~/'' then ReplaceFirst file' (CHR ''~'') homeDir else file')"

definition getItentityFiles :: "env \<Rightarrow> ConfigFlags \<Rightarrow> string list" where
  "getItentityFiles E cf = map (expandHome (Getenv E ''HOME'')) (Auth_IdentityFiles cf)"

definition getProxyItentityFiles :: "env \<Rightarrow> ConfigFlags \<Rightarrow> string list" where
  "getProxyItentityFiles E cf = map (expandHome (Getenv E ''HOME'')) (Proxy_IdentityFiles cf)"

definition getSigner :: "env \<Rightarrow> sys \<Rightarrow> string \<Rightarrow> string \<Rightarrow> signer option" where
  \<comment> \<open>the signer that \<open>getSigner\<close> returns (\<open>None\<close> for nil); its message goes to the
      debug log only\<close>
  "getSigner E s keyfile passphrase =
     (case ReadFile keyfile s of
        Inl e \<Rightarrow> None
      | Inr buf \<Rightarrow>
          (case ParsePrivateKey E buf of
             Parsed pubkey \<Rightarrow> Some pubkey
           | PassphraseMissing e \<Rightarrow>
               (case ParseEncryptedPrivateKey E buf passphrase of
                  Inl e1 \<Rightarrow> None
                | Inr pubkeyWithPassphrase \<Rightarrow> Some pubkeyWithPassphrase)
           | ParseFailed e \<Rightarrow> None))"

fun signersLoop :: "env \<Rightarrow> sys \<Rightarrow> string \<Rightarrow> string list \<Rightarrow> signer list" where
  \<comment> \<open>the loop of \<open>getSigners\<close> over the key files\<close>
  "signersLoop E s passphrase [] = []"
| "signersLoop E s passphrase (f # keyfiles) =
     (case getSigner E s f passphrase of
        None \<Rightarrow> signersLoop E s passphrase keyfiles
      | Some signer \<Rightarrow> signer # signersLoop E s passphrase keyfiles)"

definition getSigners :: "env \<Rightarrow> string list \<Rightarrow> string \<Rightarrow> sys \<Rightarrow> signer list outcome" where
  \<comment> \<open>the argument \<open>isForProxy\<close> only selects the head of the debug messages\<close>
  "getSigners E keyfiles passphrase s =
     (case assignRealPass E passphrase s of
        Exit msg s' \<Rightarrow> Exit msg s'
      | Ok realPassphrase s1 \<Rightarrow> Ok (signersLoop E s1 realPassphrase keyfiles) s1)"

definition keyAuths :: "env \<Rightarrow> string list \<Rightarrow> string \<Rightarrow> AuthMethod list \<Rightarrow> sys \<Rightarrow> AuthMethod list outcome" where
  \<comment> \<open>the block \<open>if len(keyfiles) != 0 { ... }\<close> of both functions below, appending to
      \<open>auths\<close>\<close>
  "keyAuths E keyfiles passphrase auths s =
     (if keyfiles \<noteq> [] then
        (case getSigners E keyfiles passphrase s of
           Exit msg s' \<Rightarrow> Exit msg s'
         | Ok sshSigners s1 \<Rightarrow>
             (if sshSigners = [] then Ok auths s1
              else Ok (auths @ [ssh_PublicKeys sshSigners]) s1))
      else Ok auths s)"

definition agentAuth :: "env \<Rightarrow> Task \<Rightarrow> AuthMethod list \<Rightarrow> sys \<Rightarrow> AuthMethod list \<times> Task \<times> sys" where
  \<comment> \<open>the block \<open>if sshAuthSock != "" { ... }\<close> of both functions below: dial the socket,
      append the agent's signers on success, and store the connection (nil after a failed
      dial) in \<open>t.sshAgent\<close>\<close>
  "agentAuth E t auths s =
     (let sshAuthSock = Getenv E ''SSH_AUTH_SOCK'' in
      if sshAuthSock \<noteq> [] then
        (case DialUnix E sshAuthSock of
           Some e \<Rightarrow> (auths, t\<lparr>sshAgent := None\<rparr>, s)
         | None \<Rightarrow>
             (let sshAgent' = Conn (dialled s) in
              (auths @ [ssh_PublicKeysCallback sshAgent'],
               t\<lparr>sshAgent := Some sshAgent'\<rparr>,
               s\<lparr>dialled := Suc (dialled s)\<rparr>)))
      else (auths, t, s))"

definition promptAuth :: "ConfigFlags \<Rightarrow> AuthMethod list \<Rightarrow> Task \<Rightarrow> sys \<Rightarrow> (AuthMethod list \<times> string \<times> Task) outcome" where
  \<comment> \<open>the two statements \<open>*password = getPasswordFromPrompt(...)\<close> and
      \<open>auths = append(auths, ssh.Password(*password))\<close>\<close>
  "promptAuth cf auths t s =
     (case getPasswordFromPrompt (Auth_User cf) s of
        Exit msg s' \<Rightarrow> Exit msg s'
      | Ok typed s' \<Rightarrow> Ok (auths @ [ssh_Password typed], typed, t) s')"

definition getSSHAuthMethods :: "env \<Rightarrow> Task \<Rightarrow> string \<Rightarrow> sys \<Rightarrow> (AuthMethod list \<times> string \<times> Task) outcome" where
  \<comment> \<open>returns the list, the value left in \<open>*password\<close> and the task with its field
      \<open>sshAgent\<close>\<close>
  "getSSHAuthMethods E t password s =
     (let cf = configFlags t;
          auths0 = (if password \<noteq> [] then [ssh_Password password] else [])
      in case keyAuths E (getItentityFiles E cf) (Auth_Passphrase cf) auths0 s of
           Exit msg s' \<Rightarrow> Exit msg s'
         | Ok auths1 s1 \<Rightarrow>
             (case agentAuth E t auths1 s1 of
                (auths2, t2, s2) \<Rightarrow>
                  if auths2 = [] then promptAuth cf auths2 t2 s2
                  else if password = [] \<and> Run_Sudo cf then promptAuth cf auths2 t2 s2
                  else Ok (auths2, password, t2) s2))"

definition getProxySSHAuthMethods :: "env \<Rightarrow> Task \<Rightarrow> string \<Rightarrow> sys \<Rightarrow> (AuthMethod list \<times> Task) outcome" where
  "getProxySSHAuthMethods E t password s =
     (let cf = configFlags t;
          proxyAuths0 =
            (if Proxy_Password cf \<noteq> [] then [ssh_Password (Proxy_Password cf)]
             else [ssh_Password password])
      in case keyAuths E (getProxyItentityFiles E cf) (Proxy_Passphrase cf) proxyAuths0 s of
           Exit msg s' \<Rightarrow> Exit msg s'
         | Ok proxyAuths1 s1 \<Rightarrow>
             (case agentAuth E t proxyAuths1 s1 of
                (proxyAuths2, t2, s2) \<Rightarrow> Ok (proxyAuths2, t2) s2))"

definition buildSSHClient :: "env \<Rightarrow> Task \<Rightarrow> sys \<Rightarrow> Task outcome" where
  "buildSSHClient E t s =
     (let cf = configFlags t in
      case getPassword E cf s of
        Exit msg s' \<Rightarrow> Exit msg s'
      | Ok (password, err') s1 \<Rightarrow>
          (case CheckErr err' s1 of
             Exit msg s' \<Rightarrow> Exit msg s'
           | Ok u s2 \<Rightarrow>
               (case getSSHAuthMethods E t password s2 of
                  Exit msg s' \<Rightarrow> Exit msg s'
                | Ok (auths, password', t3) s3 \<Rightarrow>
                    (let client =
                       \<lparr>client_user = Auth_User cf, client_password = password',
                        client_auths = auths, client_connTimeout = Timeout_Conn cf,
                        client_commandTimeout = Timeout_Command cf,
                        client_concurrency = Run_Concurrency cf,
                        client_port = Hosts_Port cf, client_proxy = None\<rparr>
                     in if Proxy_Server cf \<noteq> [] then
                          (case getProxySSHAuthMethods E t3 password' s3 of
                             Exit msg s' \<Rightarrow> Exit msg s'
                           | Ok (proxyAuths, t4) s4 \<Rightarrow>
                               Ok (t4\<lparr>sshClient := Some (client\<lparr>client_proxy :=
                                     Some (Proxy_Server cf, Proxy_User cf, Proxy_Port cf, proxyAuths)\<rparr>)\<rparr>) s4)
                        else Ok (t3\<lparr>sshClient := Some client\<rparr>) s3))))"

definition identitySigners :: "env \<Rightarrow> ConfigFlags \<Rightarrow> sys \<Rightarrow> signer list" where
  \<comment> \<open>the signers parsed from the identity files of the login user: what \<open>getSigners\<close>
      returns for them (none when it does not return)\<close>
  "identitySigners E cf s =
     (case getSigners E (getItentityFiles E cf) (Auth_Passphrase cf) s of
        Exit msg s' \<Rightarrow> []
      | Ok sshSigners s' \<Rightarrow> sshSigners)"

definition gatheredAuths :: "env \<Rightarrow> Task \<Rightarrow> string \<Rightarrow> sys \<Rightarrow> AuthMethod list" where
  \<comment> \<open>the methods in the order that the specification gives: the password if it is
      known, then the public keys of the parsed identity files, then the agent if
      \<open>SSH_AUTH_SOCK\<close> is set and can be dialled\<close>
  "gatheredAuths E t password s =
     (if password \<noteq> [] then [ssh_Password password] else []) @
     (if identitySigners E (configFlags t) s \<noteq> []
      then [ssh_PublicKeys (identitySigners E (configFlags t) s)] else []) @
     (if Getenv E ''SSH_AUTH_SOCK'' \<noteq> [] \<and> DialUnix E (Getenv E ''SSH_AUTH_SOCK'') = None
      then [ssh_PublicKeysCallback (Conn (dialled s))] else [])"

section \<open>The target hosts\<close>

fun dedupLoop :: "string set \<Rightarrow> string list \<Rightarrow> string list" where
  \<comment> \<open>Modelled from the spec: the pass of \<open>util.RemoveDuplStr\<close> (not in the source
      under study) over the list, with the set of the strings seen so far\<close>
  "dedupLoop seen [] = []"
| "dedupLoop seen (v # strs) =
     (if v \<in> seen then dedupLoop seen strs else v # dedupLoop (insert v seen) strs)"

definition RemoveDuplStr :: "string list \<Rightarrow> string list" where
  \<comment> \<open>Modelled from the spec: \<open>util.RemoveDuplStr\<close> (package \<open>pkg/util\<close>) is not in the
      source under study. The spec: the list is deduplicated via a set keyed on the
      literal string, preserving first-seen order.\<close>
  "RemoveDuplStr strs = dedupLoop {} strs"

fun expandLoop :: "env \<Rightarrow> string list \<Rightarrow> string list \<Rightarrow> string + string list" where
  \<comment> \<open>the loop \<open>for _, hostOrPattern := range ...\<close> of \<open>getAllHosts\<close>, the same for the
      command line and for the lines of the hosts file; the last argument is \<open>hosts\<close>\<close>
  "expandLoop E [] hosts' = Inr hosts'"
| "expandLoop E (hostOrPattern # others) hosts' =
     (let hostOrPattern' = TrimSpace hostOrPattern in
      if hostOrPattern' = [] then expandLoop E others hosts'
      else (case PatternToHosts E hostOrPattern' of
              Inl e \<Rightarrow> Inl (''invalid host pattern: '' @ e)
            | Inr hostList \<Rightarrow> expandLoop E others (hosts' @ hostList)))"

definition hostsFromFile :: "env \<Rightarrow> Task \<Rightarrow> sys \<Rightarrow> string list \<Rightarrow> string + string list" where
  \<comment> \<open>the block \<open>if t.configFlags.Hosts.File != "" { ... }\<close>\<close>
  "hostsFromFile E t s hosts' =
     (let hostsFile = Hosts_File (configFlags t) in
      if hostsFile \<noteq> [] then
        (case ReadFile hostsFile s of
           Inl e \<Rightarrow> Inl (''read hosts file failed: '' @ e)
         | Inr content \<Rightarrow>
             expandLoop E (SplitLines (TrimSuffix content [CHR 0x0A])) hosts')
      else Inr hosts')"

definition getAllHosts :: "env \<Rightarrow> Task \<Rightarrow> sys \<Rightarrow> string + string list" where
  "getAllHosts E t s =
     (case expandLoop E (hosts t) [] of
        Inl e \<Rightarrow> Inl e
      | Inr hosts1 \<Rightarrow>
          (case hostsFromFile E t s hosts1 of
             Inl e \<Rightarrow> Inl e
           | Inr hosts2 \<Rightarrow>
               if hosts2 = [] then
                 Inl (''need target hosts, you can specify hosts file by flag '' @
                      [CHR 0x27] @ ''-H'' @ [CHR 0x27] @
                      '' or provide host/pattern as positional arguments'')
               else Inr (RemoveDuplStr hosts2)))"





section \<open>The batch run\<close>

record Result =
  Addr :: string
  Status :: string
  Message :: string
  \<comment> \<open>a \<open>batchssh.Result\<close> as far as the source reads it\<close>

record detailResult =
  d_taskID :: string
  d_hostname :: string
  d_status :: string
  d_output :: string

record taskResult =
  r_taskID :: string
  hostsSuccessCount :: nat
  hostsFailureCount :: nat
  elapsed :: nat
  \<comment> \<open>the counters are Go \<open>int\<close>s that count the results of one run; they are
      modelled as natural numbers\<close>

datatype send = Detail detailResult | Summary taskResult
  \<comment> \<open>a send on \<open>t.detailOutput\<close> or on \<open>t.taskOutput\<close>\<close>

record batchssh =
  SuccessIdentifier :: string
  ClientBatchRun :: "Client \<Rightarrow> string list \<Rightarrow> Result list"
  \<comment> \<open>package \<open>pkg/batchssh\<close> is not in the source under study: its constant
      \<open>SuccessIdentifier\<close> and the results that the channel returned by
      \<open>sshClient.BatchRun(allHosts, t)\<close> delivers until it is closed, in their order of
      arrival, are parameters\<close>

definition quoted :: "string \<Rightarrow> string" where
  "quoted x = [CHR 0x27] @ x @ [CHR 0x27]"

definition needFlag :: "string \<Rightarrow> string" where
  \<comment> \<open>the text of the errors of the precondition switch\<close>
  "needFlag flag = ''need flag '' @ quoted flag @ '' or '' @ quoted ''-L/--hosts.list''"

definition validateTask :: "env \<Rightarrow> Task \<Rightarrow> sys \<Rightarrow> Task outcome" where
  \<comment> \<open>the statement \<open>switch t.taskType { ... }\<close> of \<open>BatchRun\<close>\<close>
  "validateTask E t s =
     (case taskType t of
        CommandTask \<Rightarrow>
          (if command t = [] then Ok (t\<lparr>err := Some (needFlag ''-e/--execute'')\<rparr>) s
           else Ok t s)
      | ScriptTask \<Rightarrow>
          (if scriptFile t = [] then Ok (t\<lparr>err := Some (needFlag ''-e/--execute'')\<rparr>) s
           else Ok t s)
      | PushTask \<Rightarrow>
          (if (case pushFiles t of None \<Rightarrow> True | Some pf \<Rightarrow> files pf = []) then
             Ok (t\<lparr>err := Some (needFlag ''-f/--files'')\<rparr>) s
           else Ok t s)
      | FetchTask \<Rightarrow>
          (if fetchFiles t = [] then Ok (t\<lparr>err := Some (needFlag ''-f/--files'')\<rparr>) s
           else if dstDir t = [] then Ok (t\<lparr>err := Some (needFlag ''-d/--dest-path'')\<rparr>) s
           else if \<not> DirExists E (dstDir t) then
             (case CheckErr (MkdirAll E (dstDir t)) s of
                Exit msg s' \<Rightarrow> Exit msg s'
              | Ok u s' \<Rightarrow> Ok t s')
           else Ok t s))"

fun resultLoop :: "string \<Rightarrow> string \<Rightarrow> Result list \<Rightarrow> nat \<Rightarrow> nat \<Rightarrow> send list \<times> nat \<times> nat" where
  \<comment> \<open>the loop \<open>for v := range result { ... }\<close>: the sends on \<open>t.detailOutput\<close> and the
      two counters at its end\<close>
  "resultLoop ok tid [] successCount failedCount = ([], successCount, failedCount)"
| "resultLoop ok tid (v # vs) successCount failedCount =
     (let (successCount', failedCount') =
            (if Status v = ok then (Suc successCount, failedCount)
             else (successCount, Suc failedCount));
          (sends, sc, fc) = resultLoop ok tid vs successCount' failedCount'
      in (Detail \<lparr>d_taskID = tid, d_hostname = Addr v, d_status = Status v,
                  d_output = Message v\<rparr> # sends, sc, fc))"

function showNat :: "nat \<Rightarrow> string" where
  \<comment> \<open>the verb \<open>%d\<close>\<close>
  "showNat n =
     (if n < 10 then [char_of (48 + n)]
      else showNat (n div 10) @ [char_of (48 + n mod 10)])"
  by pat_completeness auto
termination
  by (relation "measure id") auto

declare showNat.simps [simp del]

fun JoinLines :: "string list \<Rightarrow> string" where
  \<comment> \<open>\<open>strings.Join(elems, "\n")\<close>\<close>
  "JoinLines [] = []"
| "JoinLines [x] = x"
| "JoinLines (x # y # ys) = x @ [CHR 0x0A] @ JoinLines (y # ys)"

definition printHosts :: "string list \<Rightarrow> sys \<Rightarrow> sys" where
  \<comment> \<open>the two prints of the list-only branch\<close>
  "printHosts allHosts s =
     emit (Stderr ([CHR 0x0A] @ ''hosts ('' @ showNat (length allHosts) @ '')'' @ [CHR 0x0A]))
       (emit (Stdout (JoinLines allHosts @ [CHR 0x0A])) s)"

definition fanOut :: "env \<Rightarrow> batchssh \<Rightarrow> Task \<Rightarrow> string list \<Rightarrow> sys \<Rightarrow> (Task \<times> send list) outcome" where
  \<comment> \<open>\<open>BatchRun\<close> from \<open>t.buildSSHClient()\<close> to its end\<close>
  "fanOut E B t allHosts s =
     (case buildSSHClient E t s of
        Exit msg s' \<Rightarrow> Exit msg s'
      | Ok t' s' \<Rightarrow>
          (case sshClient t' of
             None \<Rightarrow> Ok (t', []) s' \<comment> \<open>never taken: \<open>buildSSHClient\<close> stores a client\<close>
           | Some client \<Rightarrow>
               (case resultLoop (SuccessIdentifier B) (taskID t') (ClientBatchRun B client allHosts) 0 0 of
                  (sends, successCount, failedCount) \<Rightarrow>
                    Ok (t', sends @ [Summary \<lparr>r_taskID = taskID t', hostsSuccessCount = successCount,
                                              hostsFailureCount = failedCount, elapsed = Elapsed E\<rparr>]) s')))"

definition BatchRun :: "env \<Rightarrow> batchssh \<Rightarrow> Task \<Rightarrow> sys \<Rightarrow> (Task \<times> send list) outcome" where
  \<comment> \<open>\<open>BatchRun\<close>: the task as it leaves it and the sends on the two channels that it
      makes, in their order\<close>
  "BatchRun E B t s =
     (case getAllHosts E t s of
        Inl e \<Rightarrow> Ok (t\<lparr>err := Some e\<rparr>, []) s
      | Inr allHosts \<Rightarrow>
          if Hosts_List (configFlags t) then Ok (t, []) (printHosts allHosts s)
          else (case validateTask E t s of
                  Exit msg s' \<Rightarrow> Exit msg s'
                | Ok t1 s1 \<Rightarrow>
                    if err t1 \<noteq> None then Ok (t1, []) s1
                    else fanOut E B t1 allHosts s1))"

definition preconditionsHold :: "Task \<Rightarrow> bool" where
  \<comment> \<open>the preconditions as the specification lists them: a non-empty command for
      Command, a non-empty script for Script, non-empty files for Push, non-empty files
      and destination directory for Fetch\<close>
  "preconditionsHold t =
     (case taskType t of
        CommandTask \<Rightarrow> command t \<noteq> []
      | ScriptTask \<Rightarrow> scriptFile t \<noteq> []
      | PushTask \<Rightarrow> (case pushFiles t of None \<Rightarrow> False | Some pf \<Rightarrow> files pf \<noteq> [])
      | FetchTask \<Rightarrow> fetchFiles t \<noteq> [] \<and> dstDir t \<noteq> [])"

section \<open>Reporting the results\<close>

text \<open>
  \<open>HandleOutput\<close> cuts the matches of \<open>sudoPromptRegex\<close> out of each output. The
  pattern uses literals, \<open>.\<close> under the flag \<open>s\<close>, one bracket expression and the greedy
  operators \<open>*\<close>, \<open>+\<close> and \<open>?\<close>, with one alternation at the top. Package \<open>regexp\<close>
  returns the leftmost match and, among those, the one that a backtracking search would
  find first; the matcher below is that search for patterns of this form. It works on
  bytes: every literal of the pattern begins with an ASCII byte and \<open>.\<close> accepts every
  byte sequence, so matching byte by byte agrees with matching code point by code
  point.
\<close>

datatype atom = Byte char | AnyByte | Class "(char \<times> char) list"
  \<comment> \<open>what matches one byte: that byte, any byte (\<open>.\<close> under the flag \<open>s\<close>), or a byte
      of one of the ranges of a bracket expression\<close>

datatype item = One atom | Star atom | Plus atom | Opt atom
  \<comment> \<open>an atom, or an atom under the greedy operators \<open>*\<close>, \<open>+\<close> and \<open>?\<close>\<close>

type_synonym regex = "item list list"
  \<comment> \<open>alternatives \<open>e1|e2|...\<close>, each a sequence of items\<close>

fun matchAtom :: "atom \<Rightarrow> char \<Rightarrow> bool" where
  "matchAtom (Byte b) c = (c = b)"
| "matchAtom AnyByte c = True"
| "matchAtom (Class ranges) c =
     list_ex (\<lambda>(lo, hi). (of_char lo :: nat) \<le> of_char c \<and> (of_char c :: nat) \<le> of_char hi) ranges"

fun matchSeq :: "item list \<Rightarrow> string \<Rightarrow> string list" where
  \<comment> \<open>the matches of a sequence at the start of the text, each given by the text left
      after it, in the order in which a backtracking search finds them: a greedy operator
      first tries to take one more byte\<close>
  "matchSeq [] s = [s]"
| "matchSeq (One a # r) [] = []"
| "matchSeq (One a # r) (c # cs) = (if matchAtom a c then matchSeq r cs else [])"
| "matchSeq (Star a # r) [] = matchSeq r []"
| "matchSeq (Star a # r) (c # cs) =
     (if matchAtom a c then matchSeq (Star a # r) cs else []) @ matchSeq r (c # cs)"
| "matchSeq (Plus a # r) [] = []"
| "matchSeq (Plus a # r) (c # cs) = (if matchAtom a c then matchSeq (Star a # r) cs else [])"
| "matchSeq (Opt a # r) [] = matchSeq r []"
| "matchSeq (Opt a # r) (c # cs) =
     (if matchAtom a c then matchSeq r cs else []) @ matchSeq r (c # cs)"

fun matchAt :: "regex \<Rightarrow> string \<Rightarrow> string option" where
  \<comment> \<open>the match at the start of the text that a backtracking search finds first, the
      alternatives tried from the left: the text left after it\<close>
  "matchAt [] s = None"
| "matchAt (alt # alts) s =
     (case matchSeq alt s of
        [] \<Rightarrow> matchAt alts s
      | rest # others \<Rightarrow> Some rest)"

function ReplaceAllString :: "regex \<Rightarrow> string \<Rightarrow> string" where
  \<comment> \<open>\<open>re.ReplaceAllString(src, "")\<close>: from the left, the leftmost match is found (at each
      position the one a backtracking search finds first) and cut out, and the search
      goes on behind it; an empty match cuts nothing out and the search moves on by one
      byte\<close>
  "ReplaceAllString re src =
     (case matchAt re src of
        Some rest \<Rightarrow>
          (if length rest < length src then ReplaceAllString re rest
           else (case src of [] \<Rightarrow> [] | c # cs \<Rightarrow> c # ReplaceAllString re cs))
      | None \<Rightarrow> (case src of [] \<Rightarrow> [] | c # cs \<Rightarrow> c # ReplaceAllString re cs))"
  by pat_completeness auto
termination
  by (relation "measure (\<lambda>(re, src). length src)") auto

declare ReplaceAllString.simps [simp del]

definition lit :: "string \<Rightarrow> item list" where
  \<comment> \<open>a literal text as a sequence\<close>
  "lit x = map (\<lambda>c. One (Byte c)) x"

definition linuxUserRegex :: "item list" where
  \<comment> \<open>\<open>[a-zA-Z0-9_.-]+[$]?\<close>\<close>
  "linuxUserRegex =
     [Plus (Class [(CHR ''a'', CHR ''z''), (CHR ''A'', CHR ''Z''), (CHR ''0'', CHR ''9''),
                   (CHR ''_'', CHR ''_''), (CHR ''.'', CHR ''.''), (CHR ''-'', CHR ''-'')]),
      Opt (Byte (CHR ''$''))]"

definition sudoPromptRegex :: regex where
  \<comment> \<open>the pattern of the source with \<open>linuxUserRegex\<close> put in for both \<open>%s\<close>; the
      twelve bytes before the line feed of the second alternative are the UTF-8 encoding
      of the four characters U+7684 U+5BC6 U+7801 U+FF1A\<close>
  "sudoPromptRegex =
     [[Star AnyByte] @ lit ''[sudo] password for '' @ linuxUserRegex @ lit ('': '' @ [CHR 0x0A]),
      [Star AnyByte] @ lit ''[sudo] '' @ linuxUserRegex @
        lit ('' '' @ [CHR 0xE7, CHR 0x9A, CHR 0x84, CHR 0xE5, CHR 0xAF, CHR 0x86,
                     CHR 0xE7, CHR 0xA0, CHR 0x81, CHR 0xEF, CHR 0xBC, CHR 0x9A, CHR 0x0A])]"

definition renderOutput :: "string \<Rightarrow> string" where
  \<comment> \<open>the value of \<open>output\<close> that the loop of \<open>HandleOutput\<close> computes from \<open>res.output\<close>;
      \<open>regexp.Compile\<close> succeeds on the pattern\<close>
  "renderOutput resOutput =
     (let outputNoR = ReplaceAllCRLF resOutput;
          outputNoSpace = TrimSpace outputNoR
      in ReplaceAllString sudoPromptRegex outputNoSpace)"

definition handleDetail :: "batchssh \<Rightarrow> detailResult \<Rightarrow> sys \<Rightarrow> sys" where
  \<comment> \<open>the body of the loop \<open>for res := range t.detailOutput\<close>\<close>
  "handleDetail B res s =
     (let output = renderOutput (d_output res) in
      if d_status res = SuccessIdentifier B
      then emit (LogHostInfo (d_hostname res) (d_status res) output) s
      else emit (LogHostError (d_hostname res) (d_status res) output) s)"

definition handleSummary :: "taskResult \<Rightarrow> sys \<Rightarrow> sys" where
  \<comment> \<open>the body of the loop \<open>for res := range t.taskOutput\<close>\<close>
  "handleSummary res s =
     emit (LogSummary (hostsSuccessCount res) (hostsFailureCount res) (elapsed res)) s"

section \<open>The run of a task\<close>

text \<open>
  \<open>Start\<close> runs three goroutines: the one that calls \<open>BatchRun\<close> and then closes both
  channels, the timer (when the task timeout is positive), and \<open>Start\<close> itself inside
  \<open>HandleOutput\<close>. A run is a sequence of steps, each a step of one goroutine; any order
  of the steps that the channels allow is a run, and the sleep of the timer may end at
  any moment. Sending on a closed channel and closing a closed channel panic, and a
  panic ends the process. The work of \<open>BatchRun\<close> up to its first send touches neither
  channel and is one step. A run is followed until \<open>Start\<close> returns or the process ends.
\<close>

datatype panic = SendOnClosedChannel | CloseOfClosedChannel
  \<comment> \<open>the two run-time panics of channels: \<open>send on closed channel\<close> and
      \<open>close of closed channel\<close>\<close>

datatype batchPc = BatchStart | BatchSend "send list" | BatchCloseDetail | BatchCloseTask | BatchDone
  \<comment> \<open>where the first goroutine of \<open>Start\<close> stands: before \<open>t.BatchRun()\<close>; inside it
      with the sends still to make; before the deferred \<open>close(t.detailOutput)\<close>; before
      the deferred \<open>close(t.taskOutput)\<close> (deferred calls run last in, first out); at its
      end\<close>

datatype timerPc = NoTimer | Sleeping | Warned | ClosedDetail | TimerDone
  \<comment> \<open>where the timer goroutine stands: not launched; in \<open>time.Sleep\<close>; after
      \<open>log.Warnf\<close>; after \<open>close(t.detailOutput)\<close>; after \<open>close(t.taskOutput)\<close>\<close>

datatype mainPc = RangeDetail | RangeTask | Returned
  \<comment> \<open>where \<open>Start\<close> itself stands, inside \<open>HandleOutput\<close>: in the loop over
      \<open>t.detailOutput\<close>; in the loop over \<open>t.taskOutput\<close>; returned\<close>

record run =
  task :: Task
  world :: sys
  batchPc :: batchPc
  timerPc :: timerPc
  mainPc :: mainPc
  detailClosed :: bool
  taskClosed :: bool
  taskBuffer :: "taskResult list"
  deferredClose :: "conn option"
  panicked :: "panic option"
  exited :: "string option"
  \<comment> \<open>\<open>task\<close> is the struct behind the pointer \<open>t\<close> that the goroutines share, \<open>world\<close>
      the state of the environment; \<open>detailClosed\<close> and \<open>taskClosed\<close> say whether the
      channel has been closed, \<open>taskBuffer\<close> holds what is buffered in \<open>t.taskOutput\<close>
      (capacity 1; \<open>t.detailOutput\<close> has no buffer); \<open>deferredClose\<close> is the connection
      whose \<open>Close\<close> the first statement of \<open>Start\<close> deferred, if it did\<close>

definition Start :: "Task \<Rightarrow> sys \<Rightarrow> run" where
  \<comment> \<open>\<open>Start\<close> up to its call of \<open>t.HandleOutput()\<close>: the \<open>Close\<close> of the agent is
      deferred if \<open>t.sshAgent\<close> is not nil at this moment, the first goroutine is
      launched, and the timer goroutine if the task timeout is positive. The channels are
      those that \<open>NewTask\<close> made: open and empty.\<close>
  "Start t s =
     \<lparr>task = t, world = s, batchPc = BatchStart,
      timerPc = (if Timeout_Task (configFlags t) > 0 then Sleeping else NoTimer),
      mainPc = RangeDetail, detailClosed = False, taskClosed = False, taskBuffer = [],
      deferredClose = sshAgent t, panicked = None, exited = None\<rparr>"

definition live :: "run \<Rightarrow> bool" where
  \<comment> \<open>the process runs and \<open>Start\<close> has not returned\<close>
  "live r \<longleftrightarrow> panicked r = None \<and> exited r = None \<and> mainPc r \<noteq> Returned"

definition batchStep :: "env \<Rightarrow> batchssh \<Rightarrow> run \<Rightarrow> run option" where
  \<comment> \<open>the next step of the first goroutine, if it can make one. A send on
      \<open>t.detailOutput\<close> completes when \<open>HandleOutput\<close> receives it, which then handles the
      result; a send on \<open>t.taskOutput\<close> needs room in the buffer.\<close>
  "batchStep E B r =
     (case batchPc r of
        BatchStart \<Rightarrow>
          (case BatchRun E B (task r) (world r) of
             Exit msg s' \<Rightarrow> Some (r\<lparr>world := s', exited := Some msg\<rparr>)
           | Ok (t', sends) s' \<Rightarrow> Some (r\<lparr>task := t', world := s', batchPc := BatchSend sends\<rparr>))
      | BatchSend [] \<Rightarrow> Some (r\<lparr>batchPc := BatchCloseDetail\<rparr>)
      | BatchSend (Detail d # rest) \<Rightarrow>
          (if detailClosed r then Some (r\<lparr>panicked := Some SendOnClosedChannel\<rparr>)
           else if mainPc r = RangeDetail then
             Some (r\<lparr>world := handleDetail B d (world r), batchPc := BatchSend rest\<rparr>)
           else None)
      | BatchSend (Summary x # rest) \<Rightarrow>
          (if taskClosed r then Some (r\<lparr>panicked := Some SendOnClosedChannel\<rparr>)
           else if length (taskBuffer r) < 1 then
             Some (r\<lparr>taskBuffer := taskBuffer r @ [x], batchPc := BatchSend rest\<rparr>)
           else None)
      | BatchCloseDetail \<Rightarrow>
          (if detailClosed r then Some (r\<lparr>panicked := Some CloseOfClosedChannel\<rparr>)
           else Some (r\<lparr>detailClosed := True, batchPc := BatchCloseTask\<rparr>))
      | BatchCloseTask \<Rightarrow>
          (if taskClosed r then Some (r\<lparr>panicked := Some CloseOfClosedChannel\<rparr>)
           else Some (r\<lparr>taskClosed := True, batchPc := BatchDone\<rparr>))
      | BatchDone \<Rightarrow> None)"

definition timeoutWarning :: "Task \<Rightarrow> string" where
  \<comment> \<open>the text of the warning of the timer goroutine\<close>
  "timeoutWarning t =
     ''task timeout, taskID: '' @ taskID t @ '', timeout value: '' @
     showNat (nat (Timeout_Task (configFlags t))) @ '' seconds''"

definition timerStep :: "run \<Rightarrow> run option" where
  \<comment> \<open>the next step of the timer goroutine; its first step is the end of the sleep\<close>
  "timerStep r =
     (case timerPc r of
        NoTimer \<Rightarrow> None
      | Sleeping \<Rightarrow>
          Some (r\<lparr>world := emit (LogWarn (timeoutWarning (task r))) (world r), timerPc := Warned\<rparr>)
      | Warned \<Rightarrow>
          (if detailClosed r then Some (r\<lparr>panicked := Some CloseOfClosedChannel\<rparr>)
           else Some (r\<lparr>detailClosed := True, timerPc := ClosedDetail\<rparr>))
      | ClosedDetail \<Rightarrow>
          (if taskClosed r then Some (r\<lparr>panicked := Some CloseOfClosedChannel\<rparr>)
           else Some (r\<lparr>taskClosed := True, timerPc := TimerDone\<rparr>))
      | TimerDone \<Rightarrow> None)"

definition runDeferred :: "conn option \<Rightarrow> sys \<Rightarrow> sys" where
  \<comment> \<open>the deferred \<open>t.sshAgent.Close()\<close>, run when \<open>Start\<close> returns\<close>
  "runDeferred d s = (case d of None \<Rightarrow> s | Some c \<Rightarrow> s\<lparr>closed := closed s @ [c]\<rparr>)"

definition mainStep :: "run \<Rightarrow> run option" where
  \<comment> \<open>the next step of \<open>HandleOutput\<close> other than receiving a result: a \<open>range\<close> loop
      ends when its channel is closed and empty\<close>
  "mainStep r =
     (case mainPc r of
        RangeDetail \<Rightarrow> (if detailClosed r then Some (r\<lparr>mainPc := RangeTask\<rparr>) else None)
      | RangeTask \<Rightarrow>
          (case taskBuffer r of
             x # rest \<Rightarrow> Some (r\<lparr>world := handleSummary x (world r), taskBuffer := rest\<rparr>)
           | [] \<Rightarrow>
               (if taskClosed r then
                  Some (r\<lparr>world := runDeferred (deferredClose r) (world r), mainPc := Returned\<rparr>)
                else None))
      | Returned \<Rightarrow> None)"

definition step :: "env \<Rightarrow> batchssh \<Rightarrow> run \<Rightarrow> run \<Rightarrow> bool" where
  \<comment> \<open>one step of the run: a step of one of the three goroutines\<close>
  "step E B r r' \<longleftrightarrow>
     live r \<and> (batchStep E B r = Some r' \<or> timerStep r = Some r' \<or> mainStep r = Some r')"

abbreviation steps :: "env \<Rightarrow> batchssh \<Rightarrow> run \<Rightarrow> run \<Rightarrow> bool" where
  "steps E B \<equiv> rtranclp (step E B)"

definition batchFinished :: "run \<Rightarrow> Task \<Rightarrow> sys \<Rightarrow> taskResult list \<Rightarrow> run" where
  \<comment> \<open>the state in which the batch goroutine has made its sends and both deferred
      closes, the summaries \<open>xs\<close> wait in the buffer, and no other goroutine has moved\<close>
  "batchFinished r t' s' xs =
     r\<lparr>task := t', world := s', batchPc := BatchDone, detailClosed := True, taskClosed := True,
       taskBuffer := xs\<rparr>"

section \<open>The command vault encrypt-file\<close>

datatype openFlag = O_CREATE_APPEND | O_TRUNC
  \<comment> \<open>the two flag sets that the source passes to \<open>os.OpenFile\<close>:
      \<open>O_CREATE|O_APPEND|O_RDWR\<close> and \<open>O_TRUNC|O_RDWR\<close>\<close>

definition OpenFile :: "env \<Rightarrow> string \<Rightarrow> openFlag \<Rightarrow> sys \<Rightarrow> string + sys" where
  \<comment> \<open>\<open>os.OpenFile\<close>: an error, or the state with the file opened: created empty when
      absent (first flag set), or emptied (second, which needs the file to exist)\<close>
  "OpenFile E name flag s =
     (case OpenFileErr E name of
        Some e \<Rightarrow> Inl e
      | None \<Rightarrow>
          (case flag of
             O_CREATE_APPEND \<Rightarrow>
               (case fsys s name of
                  None \<Rightarrow> Inr (s\<lparr>fsys := (fsys s)(name \<mapsto> [])\<rparr>)
                | Some old \<Rightarrow> Inr s)
           | O_TRUNC \<Rightarrow>
               (case fsys s name of
                  None \<Rightarrow> Inl (''open '' @ name @ '': no such file or directory'')
                | Some old \<Rightarrow> Inr (s\<lparr>fsys := (fsys s)(name \<mapsto> [])\<rparr>))))"

definition WriteTo :: "env \<Rightarrow> string \<Rightarrow> string \<Rightarrow> sys \<Rightarrow> string option \<times> sys" where
  \<comment> \<open>\<open>reader.WriteTo(f)\<close> on the file just opened: the bytes are added at its end (it
      was emptied, or is in append mode); the error of the write, if any\<close>
  "WriteTo E name bytes s =
     (case WriteErr E name of
        Some e \<Rightarrow> (Some e, s)
      | None \<Rightarrow>
          (None, s\<lparr>fsys := (fsys s)(name \<mapsto>
                     (case fsys s name of None \<Rightarrow> [] | Some old \<Rightarrow> old) @ bytes)\<rparr>))"

definition successMessage :: string where
  "successMessage = [CHR 0x0A] @ ''Encryption successful'' @ [CHR 0x0A]"

definition writeEncrypted :: "env \<Rightarrow> string \<Rightarrow> string \<Rightarrow> string \<Rightarrow> sys \<Rightarrow> unit outcome" where
  \<comment> \<open>the \<open>Run\<close> function of \<open>encryptFileCmd\<close> from \<open>var (f *os.File; err1 error)\<close> to its
      end\<close>
  "writeEncrypted E outputFile file' encryptContent s =
     (if outputFile \<noteq> [] \<and> outputFile = ''-'' then
        Ok () (emit (Stdout successMessage) (emit (Stdout (encryptContent @ [CHR 0x0A])) s))
      else
        (let name = (if outputFile \<noteq> [] then outputFile else file');
             flag = (if outputFile \<noteq> [] then O_CREATE_APPEND else O_TRUNC)
         in case OpenFile E name flag s of
              Inl err1 \<Rightarrow> Exit err1 s
            | Inr s1 \<Rightarrow>
                (case WriteTo E name encryptContent s1 of
                   (err', s2) \<Rightarrow>
                     (case CheckErr err' s2 of
                        Exit msg s' \<Rightarrow> Exit msg s'
                      | Ok u s3 \<Rightarrow> Ok () (emit (Stdout successMessage) s3)))))"

definition encryptContent :: "env \<Rightarrow> string \<Rightarrow> string \<Rightarrow> string \<Rightarrow> string \<Rightarrow> sys \<Rightarrow> unit outcome" where
  \<comment> \<open>the \<open>Run\<close> function from \<open>encryptContent, err := aes.AES256Encode(...)\<close> on\<close>
  "encryptContent E outputFile file' content vaultPass s =
     (case AES256Encode E content vaultPass of
        Inl e \<Rightarrow> Exit (''encrypt failed: '' @ e) s
      | Inr encrypted \<Rightarrow> writeEncrypted E outputFile file' encrypted s)"

definition encryptFileRun :: "env \<Rightarrow> string \<Rightarrow> string \<Rightarrow> sys \<Rightarrow> unit outcome" where
  \<comment> \<open>the \<open>Run\<close> function of \<open>encryptFileCmd\<close>; its arguments are the package variable
      \<open>outputFile\<close> and \<open>args[0]\<close> (the \<open>Args\<close> function lets exactly one argument, an
      existing file, through)\<close>
  "encryptFileRun E outputFile file' s =
     (case getVaultConfirmPassword E of
        Inl msg \<Rightarrow> Exit msg s
      | Inr vaultPass \<Rightarrow>
          (case ReadFile file' s of
             Inl e \<Rightarrow> Exit e s
           | Inr content \<Rightarrow>
               if IsAES256CipherText E content then
                 (case CheckErr (Some (''file '' @ quoted file' @ '' is already encrypted'')) s of
                    Exit msg s' \<Rightarrow> Exit msg s'
                  | Ok u s' \<Rightarrow> encryptContent E outputFile file' content vaultPass s')
               else encryptContent E outputFile file' content vaultPass s))"

section \<open>An example environment\<close>

text \<open>
  A concrete environment, configuration and state, on which the statements below are
  instantiated. In it a text is a vault ciphertext when it begins with \<open>VAULT:\<close>, and
  decrypting with the vault password \<open>vaultpw\<close> strips that head.
\<close>

definition exampleEnv :: env where
  "exampleEnv =
     \<lparr>Getenv = (\<lambda>v. if v = ''SSH_AUTH_SOCK'' then ''/tmp/agent.sock''
                    else if v = ''HOME'' then ''/home/u'' else []),
      DialUnix = (\<lambda>p. None),
      ParsePrivateKey = (\<lambda>buf. if buf = ''KEY'' then Parsed (Signer ''KEY'')
                    else if buf = ''ENCKEY'' then PassphraseMissing ''passphrase needed''
                    else ParseFailed ''no key''),
      ParseEncryptedPrivateKey = (\<lambda>buf pp. if pp = ''pp'' then Inr (Signer buf)
                    else Inl ''wrong passphrase''),
      IsAES256CipherText = (\<lambda>x. HasPrefix x ''VAULT:''),
      AES256Decode = (\<lambda>c k. if k = ''vaultpw'' then Inr (drop 6 c) else Inl ''wrong vault password''),
      AES256Encode = (\<lambda>p k. if k = [] then Inl ''empty vault password'' else Inr (''VAULT:'' @ p)),
      GetVaultPassword = Inr ''vaultpw'',
      getVaultConfirmPassword = Inr ''vaultpw'',
      PatternToHosts = (\<lambda>p. Inr [p]),
      DirExists = (\<lambda>d. True),
      MkdirAll = (\<lambda>d. None),
      OpenFileErr = (\<lambda>f. None),
      WriteErr = (\<lambda>f. None),
      Elapsed = 3\<rparr>"

definition exampleConfig :: ConfigFlags where
  "exampleConfig =
     \<lparr>Auth_User = ''u'', Auth_Password = [], Auth_AskPass = False, Auth_PassFile = [],
      Auth_IdentityFiles = [], Auth_Passphrase = [], Hosts_File = [], Hosts_Port = 22,
      Hosts_List = False, Run_Sudo = False, Run_AsUser = ''root'', Run_Lang = [],
      Run_Concurrency = 1, Proxy_Server = [], Proxy_Port = 22, Proxy_User = [],
      Proxy_Password = [], Proxy_IdentityFiles = [], Proxy_Passphrase = [],
      Timeout_Conn = 10, Timeout_Command = 0, Timeout_Task = 0\<rparr>"

definition exampleSys :: sys where
  "exampleSys =
     \<lparr>tty = [Inr ''VAULT:typed''],
      fsys = [''/pw'' \<mapsto> '' secret '', ''/id'' \<mapsto> ''KEY'',
              ''/hosts'' \<mapsto> ''h2'' @ [CHR 0x0A, CHR 0x0A] @ '' h3'' @ [CHR 0x0A],
              ''/enc'' \<mapsto> ''VAULT:abc''],
      dialled = 0, closed = [], events = []\<rparr>"

definition exampleTask :: Task where
  "exampleTask =
     (NewTask ''20220101120000'' CommandTask
        (exampleConfig\<lparr>Auth_IdentityFiles := [''/id'', ''/none''], Hosts_File := ''/hosts''\<rparr>))
       \<lparr>hosts := [''h1'', '' h2 '', ''h1''], command := ''uptime''\<rparr>"

definition exampleBatch :: batchssh where
  "exampleBatch =
     \<lparr>SuccessIdentifier = ''success'',
      ClientBatchRun = (\<lambda>client allHosts.
         map (\<lambda>h. \<lparr>Addr = h, Status = (if h = ''h2'' then ''failed'' else ''success''),
                     Message = ''up''\<rparr>) allHosts)\<rparr>"

definition listOnlyTask :: Task where
  \<comment> \<open>the example task with no command and the list-only flag set\<close>
  "listOnlyTask =
     exampleTask\<lparr>command := [], configFlags := (configFlags exampleTask)\<lparr>Hosts_List := True\<rparr>\<rparr>"


definition noCommandTask :: Task where
  \<comment> \<open>the example task with no command\<close>
  "noCommandTask = exampleTask\<lparr>command := []\<rparr>"

definition timeoutTask :: Task where
  \<comment> \<open>the example task with a task timeout of one second\<close>
  "timeoutTask = exampleTask\<lparr>configFlags := (configFlags exampleTask)\<lparr>Timeout_Task := 1\<rparr>\<rparr>"

section \<open>Properties of the string functions\<close>

lemma TrimSpace_ascii_example: "TrimSpace '' ab c  '' = ''ab c''"
  by code_simp

lemma TrimSpace_unicode_example: "TrimSpace [CHR 0xC2, CHR 0xA0, CHR ''a'', CHR 0xE3, CHR 0x80, CHR 0x80, CHR 0x0A] = ''a''"
  by code_simp

lemma TrimSpace_invalid_utf8_example: "TrimSpace [CHR 0xA0, CHR ''a'', CHR 0x80] = [CHR 0xA0, CHR ''a'', CHR 0x80]"
  by code_simp

lemma SplitLines_example: "SplitLines [CHR ''a'', CHR 0x0A, CHR 0x0A, CHR ''b''] = [''a'', [], ''b'']"
  by simp

lemma TrimLeftSpace_done: "leadingSpace (TrimLeftSpace s) = None"
proof (induction s rule: TrimLeftSpace.induct)
  case (1 s)
  show ?case
  proof (cases "leadingSpace s")
    case None
    then show ?thesis by (subst TrimLeftSpace.simps) simp
  next
    case (Some p)
    with 1 show ?thesis by (subst TrimLeftSpace.simps) simp
  qed
qed

lemma TrimRightSpace_done: "trailingSpace (TrimRightSpace s) = None"
proof (induction s rule: TrimRightSpace.induct)
  case (1 s)
  show ?case
  proof (cases "trailingSpace s")
    case None
    then show ?thesis by (subst TrimRightSpace.simps) simp
  next
    case (Some p)
    with 1 show ?thesis by (subst TrimRightSpace.simps) simp
  qed
qed

lemma TrimRightSpace_prefix: "\<exists>b. s = TrimRightSpace s @ b"
proof (induction s rule: TrimRightSpace.induct)
  case (1 s)
  show ?case
  proof (cases "trailingSpace s")
    case None
    then show ?thesis by (subst TrimRightSpace.simps) simp
  next
    case (Some p)
    with 1 obtain b where b: "take (length s - length p) s = TrimRightSpace (take (length s - length p) s) @ b"
      by blast
    have "s = take (length s - length p) s @ drop (length s - length p) s" by simp
    with b have "s = TrimRightSpace (take (length s - length p) s) @ b @ drop (length s - length p) s"
      by (metis append.assoc)
    then have "\<exists>b'. s = TrimRightSpace (take (length s - length p) s) @ b'" by (rule exI)
    with Some show ?thesis by (subst TrimRightSpace.simps) simp
  qed
qed

lemma TrimLeftSpace_suffix: "\<exists>a. s = a @ TrimLeftSpace s"
proof (induction s rule: TrimLeftSpace.induct)
  case (1 s)
  show ?case
  proof (cases "leadingSpace s")
    case None
    then show ?thesis by (subst TrimLeftSpace.simps) simp
  next
    case (Some p)
    with 1 obtain a where a: "drop (length p) s = a @ TrimLeftSpace (drop (length p) s)"
      by blast
    have "s = take (length p) s @ drop (length p) s" by simp
    with a have "s = (take (length p) s @ a) @ TrimLeftSpace (drop (length p) s)"
      by (metis append.assoc)
    then have "\<exists>a'. s = a' @ TrimLeftSpace (drop (length p) s)" by (rule exI)
    with Some show ?thesis by (subst TrimLeftSpace.simps) simp
  qed
qed

lemma leadingSpace_prefix:
  assumes "leadingSpace (r @ b) = None"
  shows "leadingSpace r = None"
proof -
  from assms have "\<forall>p \<in> set spaceRunes. \<not> HasPrefix (r @ b) p"
    by (simp add: leadingSpace_def find_None_iff)
  moreover have "HasPrefix r p \<Longrightarrow> HasPrefix (r @ b) p" for p
  proof -
    assume h: "HasPrefix r p"
    then have "length p \<le> length r"
      by (metis HasPrefix_def length_take min.cobounded1 min.commute)
    with h show ?thesis by (simp add: HasPrefix_def)
  qed
  ultimately show ?thesis
    by (auto simp: leadingSpace_def find_None_iff)
qed

lemma TrimSpace_trimmed:
  "leadingSpace (TrimSpace s) = None \<and> trailingSpace (TrimSpace s) = None
   \<and> (\<exists>a b. s = a @ TrimSpace s @ b)"
proof -
  obtain b where b: "TrimLeftSpace s = TrimSpace s @ b"
    using TrimRightSpace_prefix [of "TrimLeftSpace s"] by (auto simp: TrimSpace_def)
  obtain a where a: "s = a @ TrimLeftSpace s"
    using TrimLeftSpace_suffix by blast
  have "leadingSpace (TrimSpace s @ b) = None"
    using TrimLeftSpace_done [of s] b by simp
  then have "leadingSpace (TrimSpace s) = None" by (rule leadingSpace_prefix)
  moreover have "trailingSpace (TrimSpace s) = None"
    by (simp add: TrimSpace_def TrimRightSpace_done)
  moreover from a b have "s = a @ TrimSpace s @ b" by simp
  ultimately show ?thesis by blast
qed

section \<open>The login password\<close>

lemma assignRealPass_state:
  "assignRealPass E p s = Ok q s' \<Longrightarrow> s' = s"
  "assignRealPass E p s = Exit m s' \<Longrightarrow> s' = s"
  by (auto simp: assignRealPass_def split: if_splits sum.splits)

lemma assignRealPass_Ok_iff:
  "assignRealPass E p s = Ok q s' \<longleftrightarrow>
     s' = s \<and> (if IsAES256CipherText E p
                then (\<exists>vaultPass. GetVaultPassword E = Inr vaultPass \<and> AES256Decode E p vaultPass = Inr q)
                else q = p)"
  by (auto simp: assignRealPass_def split: if_splits sum.splits)

lemma getPassword_unfold:
  "getPassword E cf s =
     (case assignRealPass E (chosenPassword cf s) s of
        Exit msg s' \<Rightarrow> Exit msg s'
      | Ok p s2 \<Rightarrow>
          (if Auth_AskPass cf then
             (case getPasswordFromPrompt (Auth_User cf) s2 of
                Exit msg s' \<Rightarrow> Exit msg s'
              | Ok typed s3 \<Rightarrow> Ok (typed, snd (passwordFromFile cf s)) s3)
           else Ok (p, snd (passwordFromFile cf s)) s2))"
  by (simp add: getPassword_def chosenPassword_def Let_def case_prod_beta)

lemma prompt_Ok_iff:
  "getPasswordFromPrompt u s = Ok pw s' \<longleftrightarrow>
     (\<exists>rest. tty s = Inr pw # rest \<and>
        s' = emit (Stdout [CHR 0x0A]) ((emit (Stderr (''Password for '' @ u @ '': '')) s)\<lparr>tty := rest\<rparr>))"
  by (auto simp: getPasswordFromPrompt_def Let_def emit_def split: list.splits sum.splits)

lemma prompt_typed:
  "tty s = Inr typed # rest \<Longrightarrow> getPasswordFromPrompt u s = Ok typed (afterPrompt u s)"
  by (simp add: getPasswordFromPrompt_def afterPrompt_def Let_def emit_def)

text \<open>
  Claim C10. \<open>getPassword\<close> applies the vault detection and decryption
  (\<open>assignRealPass\<close>) to the flag or file value before it prompts. So with \<open>askPass\<close>
  set: a password that \<open>getPassword\<close> returns is the line typed at the prompt; whenever
  the flag or file value passes \<open>assignRealPass\<close> and a line is typed, that line is
  returned as it is, whether or not it is itself a vault ciphertext; and a flag or file
  value whose decryption fails ends the process before any prompt is written. Without
  \<open>askPass\<close>, a flag or file value that is a vault ciphertext is returned decrypted.
\<close>

theorem getPassword_prompt_verbatim:
  "(Auth_AskPass cf \<and> getPassword E cf s = Ok (pw, e) s' \<longrightarrow>
      (\<exists>rest. tty s = Inr pw # rest))
   \<and> (Auth_AskPass cf \<and> tty s = Inr typed # rest \<and>
        assignRealPass E (chosenPassword cf s) s = Ok p s \<longrightarrow>
      getPassword E cf s = Ok (typed, snd (passwordFromFile cf s)) (afterPrompt (Auth_User cf) s))
   \<and> (Auth_AskPass cf \<and> assignRealPass E (chosenPassword cf s) s = Exit msg s \<longrightarrow>
      getPassword E cf s = Exit msg s)
   \<and> (\<not> Auth_AskPass cf \<and> IsAES256CipherText E (chosenPassword cf s) \<and>
        getPassword E cf s = Ok (pw, e) s' \<longrightarrow>
      (\<exists>vaultPass. GetVaultPassword E = Inr vaultPass \<and>
         AES256Decode E (chosenPassword cf s) vaultPass = Inr pw))"
proof (intro conjI impI)
  assume a: "Auth_AskPass cf \<and> getPassword E cf s = Ok (pw, e) s'"
  then obtain p s2 where "assignRealPass E (chosenPassword cf s) s = Ok p s2"
      and pr: "getPasswordFromPrompt (Auth_User cf) s2 = Ok pw s'"
    by (auto simp: getPassword_unfold split: outcome.splits)
  then have "s2 = s" by (simp add: assignRealPass_state)
  with pr show "\<exists>rest. tty s = Inr pw # rest" by (auto simp: prompt_Ok_iff)
next
  assume "Auth_AskPass cf \<and> tty s = Inr typed # rest \<and>
        assignRealPass E (chosenPassword cf s) s = Ok p s"
  then show "getPassword E cf s = Ok (typed, snd (passwordFromFile cf s)) (afterPrompt (Auth_User cf) s)"
    by (simp add: getPassword_unfold prompt_typed)
next
  assume "Auth_AskPass cf \<and> assignRealPass E (chosenPassword cf s) s = Exit msg s"
  then show "getPassword E cf s = Exit msg s"
    by (simp add: getPassword_unfold)
next
  assume a: "\<not> Auth_AskPass cf \<and> IsAES256CipherText E (chosenPassword cf s) \<and>
        getPassword E cf s = Ok (pw, e) s'"
  then have "assignRealPass E (chosenPassword cf s) s = Ok pw s'"
    by (auto simp: getPassword_unfold split: outcome.splits)
  with a show "\<exists>vaultPass. GetVaultPassword E = Inr vaultPass \<and>
         AES256Decode E (chosenPassword cf s) vaultPass = Inr pw"
    by (simp add: assignRealPass_Ok_iff)
qed

lemma ex_chosen1: "chosenPassword (exampleConfig\<lparr>Auth_AskPass := True, Auth_Password := ''VAULT:flag''\<rparr>) exampleSys = ''VAULT:flag''"
  by (simp add: chosenPassword_def exampleConfig_def)

lemma ex_assign1: "assignRealPass exampleEnv ''VAULT:flag'' exampleSys = Ok ''flag'' exampleSys"
  by (simp add: assignRealPass_def exampleEnv_def HasPrefix_def)

theorem getPassword_prompt_verbatim_witness:
  "Auth_AskPass (exampleConfig\<lparr>Auth_AskPass := True, Auth_Password := ''VAULT:flag''\<rparr>)
   \<and> tty exampleSys = [Inr ''VAULT:typed'']
   \<and> IsAES256CipherText exampleEnv ''VAULT:typed''
   \<and> assignRealPass exampleEnv (chosenPassword (exampleConfig\<lparr>Auth_AskPass := True, Auth_Password := ''VAULT:flag''\<rparr>) exampleSys) exampleSys
       = Ok ''flag'' exampleSys
   \<and> getPassword exampleEnv (exampleConfig\<lparr>Auth_AskPass := True, Auth_Password := ''VAULT:flag''\<rparr>) exampleSys
       = Ok (''VAULT:typed'', None) (afterPrompt ''u'' exampleSys)
   \<and> \<not> Auth_AskPass (exampleConfig\<lparr>Auth_Password := ''VAULT:flag''\<rparr>)
   \<and> IsAES256CipherText exampleEnv (chosenPassword (exampleConfig\<lparr>Auth_Password := ''VAULT:flag''\<rparr>) exampleSys)
   \<and> getPassword exampleEnv (exampleConfig\<lparr>Auth_Password := ''VAULT:flag''\<rparr>) exampleSys
       = Ok (''flag'', None) exampleSys
   \<and> (\<exists>vaultPass. GetVaultPassword exampleEnv = Inr vaultPass \<and>
         AES256Decode exampleEnv (chosenPassword (exampleConfig\<lparr>Auth_Password := ''VAULT:flag''\<rparr>) exampleSys)
           vaultPass = Inr ''flag'')"
proof -
  let ?cf = "exampleConfig\<lparr>Auth_AskPass := True, Auth_Password := ''VAULT:flag''\<rparr>"
  let ?cg = "exampleConfig\<lparr>Auth_Password := ''VAULT:flag''\<rparr>"
  have 1: "Auth_AskPass ?cf" by simp
  have 2: "tty exampleSys = [Inr ''VAULT:typed'']" by (simp add: exampleSys_def)
  have 3: "assignRealPass exampleEnv (chosenPassword ?cf exampleSys) exampleSys = Ok ''flag'' exampleSys"
    by (simp add: ex_chosen1 ex_assign1)
  have 4: "snd (passwordFromFile ?cf exampleSys) = None"
    by (simp add: passwordFromFile_def exampleConfig_def)
  have u: "Auth_User ?cf = ''u''"
    by (simp add: exampleConfig_def)
  have "Auth_AskPass ?cf \<and> tty exampleSys = [Inr ''VAULT:typed''] \<and>
        assignRealPass exampleEnv (chosenPassword ?cf exampleSys) exampleSys = Ok ''flag'' exampleSys \<longrightarrow>
      getPassword exampleEnv ?cf exampleSys
        = Ok (''VAULT:typed'', snd (passwordFromFile ?cf exampleSys)) (afterPrompt (Auth_User ?cf) exampleSys)"
    by (rule conjunct1 [OF conjunct2 [OF getPassword_prompt_verbatim]])
  with 1 2 3 have "getPassword exampleEnv ?cf exampleSys
        = Ok (''VAULT:typed'', snd (passwordFromFile ?cf exampleSys)) (afterPrompt (Auth_User ?cf) exampleSys)"
    by blast
  then have 5: "getPassword exampleEnv ?cf exampleSys = Ok (''VAULT:typed'', None) (afterPrompt ''u'' exampleSys)"
    by (simp only: 4 u)
  have 6: "IsAES256CipherText exampleEnv ''VAULT:typed''"
    by (simp add: exampleEnv_def HasPrefix_def)
  have g: "\<not> Auth_AskPass ?cg" "chosenPassword ?cg exampleSys = ''VAULT:flag''"
      "snd (passwordFromFile ?cg exampleSys) = None"
    by (simp_all add: chosenPassword_def passwordFromFile_def exampleConfig_def)
  have 7: "IsAES256CipherText exampleEnv (chosenPassword ?cg exampleSys)"
    by (simp add: g) (simp add: exampleEnv_def HasPrefix_def)
  have 8: "getPassword exampleEnv ?cg exampleSys = Ok (''flag'', None) exampleSys"
    by (simp add: getPassword_unfold g ex_assign1)
  have "\<not> Auth_AskPass ?cg \<and> IsAES256CipherText exampleEnv (chosenPassword ?cg exampleSys) \<and>
        getPassword exampleEnv ?cg exampleSys = Ok (''flag'', None) exampleSys \<longrightarrow>
      (\<exists>vaultPass. GetVaultPassword exampleEnv = Inr vaultPass \<and>
         AES256Decode exampleEnv (chosenPassword ?cg exampleSys) vaultPass = Inr ''flag'')"
    by (rule getPassword_prompt_verbatim [THEN conjunct2, THEN conjunct2, THEN conjunct2])
  with g(1) 7 8 have 9: "\<exists>vaultPass. GetVaultPassword exampleEnv = Inr vaultPass \<and>
         AES256Decode exampleEnv (chosenPassword ?cg exampleSys) vaultPass = Inr ''flag''"
    by blast
  show ?thesis
    by (intro conjI) (rule 1 2 6 3 5 g(1) 7 8 9)+
qed

lemma getPassword_returns:
  "\<not> Auth_AskPass cf \<Longrightarrow> \<not> IsAES256CipherText E (chosenPassword cf s) \<Longrightarrow>
     getPassword E cf s = Ok (chosenPassword cf s, snd (passwordFromFile cf s)) s"
  by (simp add: getPassword_unfold assignRealPass_def)

lemma chosenPassword_eq:
  "chosenPassword cf s =
     (if Auth_Password cf \<noteq> [] then Auth_Password cf
      else if Auth_PassFile cf = [] then []
      else TrimSpace (case fsys s (Auth_PassFile cf) of None \<Rightarrow> [] | Some c \<Rightarrow> c))"
  by (simp add: chosenPassword_def passwordFromFile_def ReadFile_def split: option.splits)

text \<open>
  Claim C2, as amended. When \<open>getPassword\<close> returns a password: with \<open>askPass\<close> set
  it is the line typed at the prompt; otherwise it comes from the flag value when that
  is non-empty, else from the content of the password file with its leading and its
  trailing white space removed (\<open>strings.TrimSpace\<close>; empty when no file is configured
  or the file cannot be read), and a flag or file value that is a vault ciphertext is
  replaced by its decryption. Without \<open>askPass\<close> and without a ciphertext the function
  returns that value.
\<close>

theorem getPassword_priority:
  "(getPassword E cf s = Ok (pw, e) s' \<longrightarrow>
     (let v = (if Auth_Password cf \<noteq> [] then Auth_Password cf
               else if Auth_PassFile cf = [] then []
               else TrimSpace (case fsys s (Auth_PassFile cf) of None \<Rightarrow> [] | Some c \<Rightarrow> c))
      in if Auth_AskPass cf then (\<exists>rest. tty s = Inr pw # rest)
         else if IsAES256CipherText E v then
           (\<exists>vaultPass. GetVaultPassword E = Inr vaultPass \<and> AES256Decode E v vaultPass = Inr pw)
         else pw = v))
   \<and> (let v = (if Auth_Password cf \<noteq> [] then Auth_Password cf
               else if Auth_PassFile cf = [] then []
               else TrimSpace (case fsys s (Auth_PassFile cf) of None \<Rightarrow> [] | Some c \<Rightarrow> c))
      in \<not> Auth_AskPass cf \<and> \<not> IsAES256CipherText E v \<longrightarrow>
         (\<exists>e. getPassword E cf s = Ok (v, e) s))"
proof (intro conjI impI)
  assume a: "getPassword E cf s = Ok (pw, e) s'"
  show "(let v = (if Auth_Password cf \<noteq> [] then Auth_Password cf
               else if Auth_PassFile cf = [] then []
               else TrimSpace (case fsys s (Auth_PassFile cf) of None \<Rightarrow> [] | Some c \<Rightarrow> c))
      in if Auth_AskPass cf then (\<exists>rest. tty s = Inr pw # rest)
         else if IsAES256CipherText E v then
           (\<exists>vaultPass. GetVaultPassword E = Inr vaultPass \<and> AES256Decode E v vaultPass = Inr pw)
         else pw = v)"
  proof (cases "Auth_AskPass cf")
    case True
    with a obtain p s2 where "assignRealPass E (chosenPassword cf s) s = Ok p s2"
        and pr: "getPasswordFromPrompt (Auth_User cf) s2 = Ok pw s'"
      by (auto simp: getPassword_unfold split: outcome.splits)
    then have "s2 = s" by (simp add: assignRealPass_state)
    with pr have "\<exists>rest. tty s = Inr pw # rest" by (auto simp: prompt_Ok_iff)
    with True show ?thesis by (simp add: Let_def)
  next
    case False
    with a have "assignRealPass E (chosenPassword cf s) s = Ok pw s'"
      by (auto simp: getPassword_unfold split: outcome.splits)
    then have "if IsAES256CipherText E (chosenPassword cf s)
       then (\<exists>vaultPass. GetVaultPassword E = Inr vaultPass \<and> AES256Decode E (chosenPassword cf s) vaultPass = Inr pw)
       else pw = chosenPassword cf s"
      by (simp add: assignRealPass_Ok_iff)
    with False show ?thesis
      unfolding Let_def chosenPassword_eq [symmetric] by simp
  qed
next
  show "(let v = (if Auth_Password cf \<noteq> [] then Auth_Password cf
               else if Auth_PassFile cf = [] then []
               else TrimSpace (case fsys s (Auth_PassFile cf) of None \<Rightarrow> [] | Some c \<Rightarrow> c))
      in \<not> Auth_AskPass cf \<and> \<not> IsAES256CipherText E v \<longrightarrow>
         (\<exists>e. getPassword E cf s = Ok (v, e) s))"
    unfolding Let_def chosenPassword_eq [symmetric]
    using getPassword_returns [of cf E s] by blast
qed

lemma ex_trim: "TrimSpace '' secret '' = ''secret''"
  by code_simp

lemma ex_trimr: "TrimRightSpace '' secret '' = '' secret''"
  by code_simp

lemma ex_getPassword_file:
  "getPassword exampleEnv (exampleConfig\<lparr>Auth_PassFile := ''/pw''\<rparr>) exampleSys = Ok (''secret'', None) exampleSys"
proof -
  have f: "fsys exampleSys ''/pw'' = Some '' secret ''"
    by (simp add: exampleSys_def)
  have g: "Auth_PassFile (exampleConfig\<lparr>Auth_PassFile := ''/pw''\<rparr>) = ''/pw''"
      "Auth_Password (exampleConfig\<lparr>Auth_PassFile := ''/pw''\<rparr>) = []"
      "\<not> Auth_AskPass (exampleConfig\<lparr>Auth_PassFile := ''/pw''\<rparr>)"
    by (simp_all add: exampleConfig_def)
  have c: "chosenPassword (exampleConfig\<lparr>Auth_PassFile := ''/pw''\<rparr>) exampleSys = ''secret''"
    unfolding chosenPassword_eq by (simp only: g f option.case ex_trim) simp
  have p: "snd (passwordFromFile (exampleConfig\<lparr>Auth_PassFile := ''/pw''\<rparr>) exampleSys) = None"
    by (simp add: passwordFromFile_def ReadFile_def f g)
  have a: "assignRealPass exampleEnv ''secret'' exampleSys = Ok ''secret'' exampleSys"
    by (simp add: assignRealPass_def exampleEnv_def HasPrefix_def)
  show ?thesis
    by (simp add: getPassword_unfold c p a g)
qed

text \<open>
  Claim C2 as stated fails: the password file \<open>/pw\<close> holds \<open>secret\<close> between two
  blanks; the source returns \<open>secret\<close>, while the content with only its trailing white
  space removed still begins with a blank.
\<close>

theorem getPassword_trailing_only_counterexample:
  "getPassword exampleEnv (exampleConfig\<lparr>Auth_PassFile := ''/pw''\<rparr>) exampleSys = Ok (''secret'', None) exampleSys
   \<and> claimedPassword (exampleConfig\<lparr>Auth_PassFile := ''/pw''\<rparr>) exampleSys = '' secret''
   \<and> ''secret'' \<noteq> '' secret''"
proof -
  have f: "fsys exampleSys ''/pw'' = Some '' secret ''"
    by (simp add: exampleSys_def)
  have g: "Auth_PassFile (exampleConfig\<lparr>Auth_PassFile := ''/pw''\<rparr>) = ''/pw''"
      "Auth_Password (exampleConfig\<lparr>Auth_PassFile := ''/pw''\<rparr>) = []"
      "\<not> Auth_AskPass (exampleConfig\<lparr>Auth_PassFile := ''/pw''\<rparr>)"
    by (simp_all add: exampleConfig_def)
  have "claimedPassword (exampleConfig\<lparr>Auth_PassFile := ''/pw''\<rparr>) exampleSys = '' secret''"
    unfolding claimedPassword_def by (simp only: g f option.case ex_trimr) simp
  with ex_getPassword_file show ?thesis by simp
qed

theorem getPassword_priority_witness:
  "getPassword exampleEnv (exampleConfig\<lparr>Auth_PassFile := ''/pw''\<rparr>) exampleSys = Ok (''secret'', None) exampleSys
   \<and> \<not> Auth_AskPass (exampleConfig\<lparr>Auth_PassFile := ''/pw''\<rparr>)
   \<and> Auth_Password (exampleConfig\<lparr>Auth_PassFile := ''/pw''\<rparr>) = []
   \<and> ''secret'' = TrimSpace (case fsys exampleSys ''/pw'' of None \<Rightarrow> [] | Some c \<Rightarrow> c)"
proof -
  let ?cf = "exampleConfig\<lparr>Auth_PassFile := ''/pw''\<rparr>"
  have c: "\<not> Auth_AskPass ?cf" "Auth_Password ?cf = []" "Auth_PassFile ?cf = ''/pw''"
    by (simp_all add: exampleConfig_def)
  have n: "\<not> IsAES256CipherText exampleEnv (TrimSpace (case fsys exampleSys ''/pw'' of None \<Rightarrow> [] | Some c \<Rightarrow> c))"
    by (simp add: exampleSys_def ex_trim) (simp add: exampleEnv_def HasPrefix_def)
  from getPassword_priority [THEN conjunct1, THEN mp, OF ex_getPassword_file] n
  have "''secret'' = TrimSpace (case fsys exampleSys ''/pw'' of None \<Rightarrow> [] | Some c \<Rightarrow> c)"
    unfolding Let_def by (simp add: c)
  with ex_getPassword_file c show ?thesis by simp
qed


section \<open>The authentication methods\<close>

lemma getSigners_state:
  "getSigners E kf pp s = Ok sg s' \<Longrightarrow> s' = s"
  "getSigners E kf pp s = Exit m s' \<Longrightarrow> s' = s"
  by (auto simp: getSigners_def split: outcome.splits dest: assignRealPass_state)

lemma getSigners_Nil: "getSigners E [] pp s = Ok sg s' \<Longrightarrow> sg = []"
  by (auto simp: getSigners_def split: outcome.splits)

lemma keyAuths_Ok:
  assumes "keyAuths E (getItentityFiles E cf) (Auth_Passphrase cf) auths s = Ok a s1"
  shows "s1 = s \<and> a = auths @ (if identitySigners E cf s \<noteq> []
                             then [ssh_PublicKeys (identitySigners E cf s)] else [])"
proof (cases "getItentityFiles E cf = []")
  case True
  with assms have "a = auths" "s1 = s" by (simp_all add: keyAuths_def)
  moreover from True have "identitySigners E cf s = []"
    by (auto simp: identitySigners_def split: outcome.splits dest: getSigners_Nil)
  ultimately show ?thesis by simp
next
  case False
  with assms obtain sg where g: "getSigners E (getItentityFiles E cf) (Auth_Passphrase cf) s = Ok sg s1"
      and a: "a = (if sg = [] then auths else auths @ [ssh_PublicKeys sg])"
    by (auto simp: keyAuths_def split: outcome.splits if_splits)
  from g have "s1 = s" by (rule getSigners_state)
  moreover from g have "identitySigners E cf s = sg" by (simp add: identitySigners_def)
  ultimately show ?thesis using a by simp
qed

lemma keyAuths_total:
  "getSigners E kf pp s = Ok sg s \<Longrightarrow> \<exists>a. keyAuths E kf pp auths s = Ok a s"
  by (simp add: keyAuths_def)

lemma agentAuth_eq:
  "agentAuth E t auths s =
     (auths @ (if Getenv E ''SSH_AUTH_SOCK'' \<noteq> [] \<and> DialUnix E (Getenv E ''SSH_AUTH_SOCK'') = None
               then [ssh_PublicKeysCallback (Conn (dialled s))] else []),
      snd (agentAuth E t auths s))"
  by (simp add: agentAuth_def Let_def split: option.splits)

lemma agentAuth_tty: "tty (snd (snd (agentAuth E t auths s))) = tty s"
  by (simp add: agentAuth_def Let_def split: option.splits)

lemma promptAuth_Ok:
  "promptAuth cf auths t s = Ok (a, pw, t') s' \<Longrightarrow>
     \<exists>rest. tty s = Inr pw # rest \<and> a = auths @ [ssh_Password pw]"
  by (auto simp: promptAuth_def prompt_Ok_iff split: outcome.splits)

lemma promptAuth_typed:
  "tty s = Inr typed # rest \<Longrightarrow>
     promptAuth cf auths t s = Ok (auths @ [ssh_Password typed], typed, t) (afterPrompt (Auth_User cf) s)"
  by (simp add: promptAuth_def prompt_typed)

lemma getSSHAuthMethods_unfold:
  assumes "keyAuths E (getItentityFiles E (configFlags t)) (Auth_Passphrase (configFlags t))
             (if password \<noteq> [] then [ssh_Password password] else []) s = Ok a s1"
  shows "getSSHAuthMethods E t password s =
     (let g = gatheredAuths E t password s;
          r = snd (agentAuth E t a s)
      in if g = [] \<or> (password = [] \<and> Run_Sudo (configFlags t))
         then promptAuth (configFlags t) g (fst r) (snd r)
         else Ok (g, password, fst r) (snd r))"
proof -
  from keyAuths_Ok [OF assms] have s1: "s1 = s"
    and a: "a = (if password \<noteq> [] then [ssh_Password password] else []) @
         (if identitySigners E (configFlags t) s \<noteq> []
          then [ssh_PublicKeys (identitySigners E (configFlags t) s)] else [])"
    by simp_all
  have g: "fst (agentAuth E t a s) = gatheredAuths E t password s"
    by (subst agentAuth_eq) (simp add: gatheredAuths_def a)
  show ?thesis
    using assms g unfolding getSSHAuthMethods_def Let_def s1
    by (cases "agentAuth E t a s") auto
qed

text \<open>
  Claim C1. The list that \<open>getSSHAuthMethods\<close> returns begins with the gathered
  methods in this order: the password when it is non-empty, then the public keys of the
  parsed identity files, then the agent when \<open>SSH_AUTH_SOCK\<close> is set and can be dialled.
  The password typed at the prompt is appended at the end exactly when nothing was
  gathered, or sudo is requested and the password is still empty; otherwise the list is
  the gathered methods. The function returns whenever the identity files can be parsed
  and, where a prompt is due, a line is typed.
\<close>

theorem getSSHAuthMethods_order:
  "(getSSHAuthMethods E t password s = Ok (auths, password', t') s' \<longrightarrow>
      (if gatheredAuths E t password s = [] \<or> (Run_Sudo (configFlags t) \<and> password = [])
       then (\<exists>rest. tty s = Inr password' # rest) \<and>
            auths = gatheredAuths E t password s @ [ssh_Password password']
       else auths = gatheredAuths E t password s \<and> password' = password))
   \<and> (getSigners E (getItentityFiles E (configFlags t)) (Auth_Passphrase (configFlags t)) s
         = Ok sshSigners s \<and>
       \<not> (gatheredAuths E t password s = [] \<or> (Run_Sudo (configFlags t) \<and> password = [])) \<longrightarrow>
      (\<exists>t' s'. getSSHAuthMethods E t password s = Ok (gatheredAuths E t password s, password, t') s'))
   \<and> (getSigners E (getItentityFiles E (configFlags t)) (Auth_Passphrase (configFlags t)) s
         = Ok sshSigners s \<and> tty s = Inr typed # rest \<and>
       (gatheredAuths E t password s = [] \<or> (Run_Sudo (configFlags t) \<and> password = [])) \<longrightarrow>
      (\<exists>t' s'. getSSHAuthMethods E t password s
                 = Ok (gatheredAuths E t password s @ [ssh_Password typed], typed, t') s'))"
proof (intro conjI impI)
  assume r: "getSSHAuthMethods E t password s = Ok (auths, password', t') s'"
  then obtain a s1 where k: "keyAuths E (getItentityFiles E (configFlags t)) (Auth_Passphrase (configFlags t))
             (if password \<noteq> [] then [ssh_Password password] else []) s = Ok a s1"
    by (auto simp: getSSHAuthMethods_def Let_def split: outcome.splits)
  let ?r = "snd (agentAuth E t a s)"
  have ty: "tty (snd ?r) = tty s" by (rule agentAuth_tty)
  show "if gatheredAuths E t password s = [] \<or> (Run_Sudo (configFlags t) \<and> password = [])
       then (\<exists>rest. tty s = Inr password' # rest) \<and>
            auths = gatheredAuths E t password s @ [ssh_Password password']
       else auths = gatheredAuths E t password s \<and> password' = password"
  proof (cases "gatheredAuths E t password s = [] \<or> (Run_Sudo (configFlags t) \<and> password = [])")
    case True
    with r have "promptAuth (configFlags t) (gatheredAuths E t password s) (fst ?r) (snd ?r)
        = Ok (auths, password', t') s'"
      unfolding getSSHAuthMethods_unfold [OF k] Let_def by auto
    from promptAuth_Ok [OF this] ty True show ?thesis by auto
  next
    case False
    with r have "Ok (gatheredAuths E t password s, password, fst ?r) (snd ?r) = Ok (auths, password', t') s'"
      unfolding getSSHAuthMethods_unfold [OF k] Let_def by auto
    with False show ?thesis by auto
  qed
next
  assume h: "getSigners E (getItentityFiles E (configFlags t)) (Auth_Passphrase (configFlags t)) s
         = Ok sshSigners s \<and>
       \<not> (gatheredAuths E t password s = [] \<or> (Run_Sudo (configFlags t) \<and> password = []))"
  then obtain a where k: "keyAuths E (getItentityFiles E (configFlags t)) (Auth_Passphrase (configFlags t))
             (if password \<noteq> [] then [ssh_Password password] else []) s = Ok a s"
    using keyAuths_total by blast
  from h show "\<exists>t' s'. getSSHAuthMethods E t password s = Ok (gatheredAuths E t password s, password, t') s'"
    unfolding getSSHAuthMethods_unfold [OF k] Let_def by auto
next
  assume h: "getSigners E (getItentityFiles E (configFlags t)) (Auth_Passphrase (configFlags t)) s
         = Ok sshSigners s \<and> tty s = Inr typed # rest \<and>
       (gatheredAuths E t password s = [] \<or> (Run_Sudo (configFlags t) \<and> password = []))"
  then obtain a where k: "keyAuths E (getItentityFiles E (configFlags t)) (Auth_Passphrase (configFlags t))
             (if password \<noteq> [] then [ssh_Password password] else []) s = Ok a s"
    using keyAuths_total by blast
  let ?r = "snd (agentAuth E t a s)"
  have "tty (snd ?r) = Inr typed # rest" using h agentAuth_tty [of E t a s] by simp
  from promptAuth_typed [OF this] h
  show "\<exists>t' s'. getSSHAuthMethods E t password s
                 = Ok (gatheredAuths E t password s @ [ssh_Password typed], typed, t') s'"
    unfolding getSSHAuthMethods_unfold [OF k] Let_def by auto
qed


lemma ex_getSigners:
  "getSigners exampleEnv [''/id'', ''/none''] [] exampleSys = Ok [Signer ''KEY''] exampleSys"
  by (simp add: getSigners_def assignRealPass_def getSigner_def ReadFile_def exampleEnv_def
      exampleSys_def HasPrefix_def)

lemma ex_task_fields:
  "getItentityFiles exampleEnv (configFlags exampleTask) = [''/id'', ''/none'']"
  "Auth_Passphrase (configFlags exampleTask) = []"
  "Run_Sudo (configFlags exampleTask) = False"
  "Auth_User (configFlags exampleTask) = ''u''"
  "Hosts_File (configFlags exampleTask) = ''/hosts''"
  "Hosts_List (configFlags exampleTask) = False"
  "Proxy_Server (configFlags exampleTask) = []"
  "Timeout_Task (configFlags exampleTask) = 0"
  by (simp_all add: exampleTask_def NewTask_def getItentityFiles_def expandHome_def HasPrefix_def
      exampleConfig_def)

lemma ex_gathered:
  "gatheredAuths exampleEnv exampleTask ''pw'' exampleSys =
     [ssh_Password ''pw'', ssh_PublicKeys [Signer ''KEY''], ssh_PublicKeysCallback (Conn 0)]"
  unfolding gatheredAuths_def identitySigners_def ex_task_fields ex_getSigners
  by (simp add: exampleEnv_def exampleSys_def)

theorem getSSHAuthMethods_order_witness:
  "getSigners exampleEnv (getItentityFiles exampleEnv (configFlags exampleTask))
       (Auth_Passphrase (configFlags exampleTask)) exampleSys = Ok [Signer ''KEY''] exampleSys
   \<and> gatheredAuths exampleEnv exampleTask ''pw'' exampleSys =
       [ssh_Password ''pw'', ssh_PublicKeys [Signer ''KEY''], ssh_PublicKeysCallback (Conn 0)]
   \<and> (\<exists>t' s'. getSSHAuthMethods exampleEnv exampleTask ''pw'' exampleSys =
         Ok ([ssh_Password ''pw'', ssh_PublicKeys [Signer ''KEY''], ssh_PublicKeysCallback (Conn 0)],
             ''pw'', t') s')"
proof -
  have g: "getSigners exampleEnv (getItentityFiles exampleEnv (configFlags exampleTask))
       (Auth_Passphrase (configFlags exampleTask)) exampleSys = Ok [Signer ''KEY''] exampleSys"
    unfolding ex_task_fields by (rule ex_getSigners)
  have n: "\<not> (gatheredAuths exampleEnv exampleTask ''pw'' exampleSys = [] \<or>
      (Run_Sudo (configFlags exampleTask) \<and> ''pw'' = []))"
    by (simp add: ex_gathered)
  have "getSigners exampleEnv (getItentityFiles exampleEnv (configFlags exampleTask))
          (Auth_Passphrase (configFlags exampleTask)) exampleSys = Ok [Signer ''KEY''] exampleSys \<and>
       \<not> (gatheredAuths exampleEnv exampleTask ''pw'' exampleSys = [] \<or>
          (Run_Sudo (configFlags exampleTask) \<and> ''pw'' = [])) \<longrightarrow>
      (\<exists>t' s'. getSSHAuthMethods exampleEnv exampleTask ''pw'' exampleSys
           = Ok (gatheredAuths exampleEnv exampleTask ''pw'' exampleSys, ''pw'', t') s')"
    by (rule conjunct1 [OF conjunct2 [OF getSSHAuthMethods_order]])
  with g n have "\<exists>t' s'. getSSHAuthMethods exampleEnv exampleTask ''pw'' exampleSys
           = Ok (gatheredAuths exampleEnv exampleTask ''pw'' exampleSys, ''pw'', t') s'"
    by blast
  then have "\<exists>t' s'. getSSHAuthMethods exampleEnv exampleTask ''pw'' exampleSys =
         Ok ([ssh_Password ''pw'', ssh_PublicKeys [Signer ''KEY''], ssh_PublicKeysCallback (Conn 0)],
             ''pw'', t') s'"
    by (simp only: ex_gathered)
  with g ex_gathered show ?thesis by blast
qed


section \<open>The host list\<close>
















lemma ex_hosts_code: "getAllHosts exampleEnv exampleTask exampleSys = Inr [''h1'', ''h2'', ''h3'']"
  by code_simp









section \<open>The order of the steps of the batch run\<close>

lemma validateTask_fails:
  assumes "\<not> preconditionsHold t"
  shows "\<exists>m. validateTask E t s = Ok (t\<lparr>err := Some m\<rparr>) s"
proof (cases "taskType t")
  case CommandTask
  with assms have "validateTask E t s = Ok (t\<lparr>err := Some (needFlag ''-e/--execute'')\<rparr>) s"
    by (simp add: validateTask_def preconditionsHold_def)
  then show ?thesis ..
next
  case ScriptTask
  with assms have "validateTask E t s = Ok (t\<lparr>err := Some (needFlag ''-e/--execute'')\<rparr>) s"
    by (simp add: validateTask_def preconditionsHold_def)
  then show ?thesis ..
next
  case PushTask
  with assms have "validateTask E t s = Ok (t\<lparr>err := Some (needFlag ''-f/--files'')\<rparr>) s"
    by (auto simp: validateTask_def preconditionsHold_def split: option.splits)
  then show ?thesis ..
next
  case FetchTask
  show ?thesis
  proof (cases "fetchFiles t = []")
    case True
    with FetchTask have "validateTask E t s = Ok (t\<lparr>err := Some (needFlag ''-f/--files'')\<rparr>) s"
      by (simp add: validateTask_def)
    then show ?thesis ..
  next
    case False
    with FetchTask assms have "validateTask E t s = Ok (t\<lparr>err := Some (needFlag ''-d/--dest-path'')\<rparr>) s"
      by (simp add: validateTask_def preconditionsHold_def)
    then show ?thesis ..
  qed
qed

lemma validateTask_passes:
  assumes "preconditionsHold t"
    and "taskType t = FetchTask \<longrightarrow> DirExists E (dstDir t) \<or> MkdirAll E (dstDir t) = None"
  shows "validateTask E t s = Ok t s"
proof (cases "taskType t")
  case CommandTask
  with assms show ?thesis by (simp add: validateTask_def preconditionsHold_def)
next
  case ScriptTask
  with assms show ?thesis by (simp add: validateTask_def preconditionsHold_def)
next
  case PushTask
  with assms show ?thesis
    by (auto simp: validateTask_def preconditionsHold_def split: option.splits)
next
  case FetchTask
  with assms show ?thesis
    by (auto simp: validateTask_def preconditionsHold_def CheckErr_def)
qed

text \<open>
  Claim C4, as amended. \<open>BatchRun\<close> expands the hosts first: a failed expansion is
  recorded as the task's error and nothing else happens. With the list-only flag it then
  prints the hosts and returns, without looking at the preconditions. Otherwise it
  checks the preconditions of the task type next: a task that fails one gets the error
  recorded, and neither output nor fan-out happens (no sends, the state unchanged, so
  no prompt, no agent connection and no client); a task that passes goes on to build
  the client and to fan out.
\<close>

theorem BatchRun_validation_order:
  "(getAllHosts E t s = Inl e \<longrightarrow> BatchRun E B t s = Ok (t\<lparr>err := Some e\<rparr>, []) s)
   \<and> (getAllHosts E t s = Inr allHosts \<and> Hosts_List (configFlags t) \<longrightarrow>
        BatchRun E B t s = Ok (t, []) (printHosts allHosts s))
   \<and> (getAllHosts E t s = Inr allHosts \<and> \<not> Hosts_List (configFlags t) \<and> \<not> preconditionsHold t \<longrightarrow>
        (\<exists>m. BatchRun E B t s = Ok (t\<lparr>err := Some m\<rparr>, []) s))
   \<and> (getAllHosts E t s = Inr allHosts \<and> \<not> Hosts_List (configFlags t) \<and> preconditionsHold t \<and>
       err t = None \<and> (taskType t = FetchTask \<longrightarrow> DirExists E (dstDir t) \<or> MkdirAll E (dstDir t) = None) \<longrightarrow>
        BatchRun E B t s = fanOut E B t allHosts s)"
proof (intro conjI impI)
  assume "getAllHosts E t s = Inl e"
  then show "BatchRun E B t s = Ok (t\<lparr>err := Some e\<rparr>, []) s"
    by (simp add: BatchRun_def)
next
  assume "getAllHosts E t s = Inr allHosts \<and> Hosts_List (configFlags t)"
  then show "BatchRun E B t s = Ok (t, []) (printHosts allHosts s)"
    by (simp add: BatchRun_def)
next
  assume h: "getAllHosts E t s = Inr allHosts \<and> \<not> Hosts_List (configFlags t) \<and> \<not> preconditionsHold t"
  then obtain m where "validateTask E t s = Ok (t\<lparr>err := Some m\<rparr>) s"
    using validateTask_fails by blast
  with h have "BatchRun E B t s = Ok (t\<lparr>err := Some m\<rparr>, []) s"
    by (simp add: BatchRun_def)
  then show "\<exists>m. BatchRun E B t s = Ok (t\<lparr>err := Some m\<rparr>, []) s" ..
next
  assume h: "getAllHosts E t s = Inr allHosts \<and> \<not> Hosts_List (configFlags t) \<and> preconditionsHold t \<and>
       err t = None \<and> (taskType t = FetchTask \<longrightarrow> DirExists E (dstDir t) \<or> MkdirAll E (dstDir t) = None)"
  then have "validateTask E t s = Ok t s" by (simp add: validateTask_passes)
  with h show "BatchRun E B t s = fanOut E B t allHosts s"
    by (simp add: BatchRun_def)
qed

lemma ex_list_hosts: "getAllHosts exampleEnv listOnlyTask exampleSys = Inr [''h1'', ''h2'', ''h3'']"
  by code_simp

lemma ex_list_fields:
  "Hosts_List (configFlags listOnlyTask)" "\<not> preconditionsHold listOnlyTask"
  "err listOnlyTask = None"
  by (simp_all add: listOnlyTask_def preconditionsHold_def exampleTask_def NewTask_def)

lemma ex_printHosts:
  "events (printHosts [''h1'', ''h2'', ''h3''] exampleSys) =
     [Stdout [CHR ''h'', CHR ''1'', CHR 0x0A, CHR ''h'', CHR ''2'', CHR 0x0A, CHR ''h'', CHR ''3'', CHR 0x0A],
      Stderr ([CHR 0x0A] @ ''hosts (3)'' @ [CHR 0x0A])]"
  by code_simp

text \<open>
  Claim C4 as stated fails: with the list-only flag set, a Command task with an empty
  command has its hosts expanded and printed, and no error is recorded.
\<close>

theorem BatchRun_list_before_validation_counterexample:
  "\<not> preconditionsHold listOnlyTask
   \<and> BatchRun exampleEnv exampleBatch listOnlyTask exampleSys
       = Ok (listOnlyTask, []) (printHosts [''h1'', ''h2'', ''h3''] exampleSys)
   \<and> err listOnlyTask = None
   \<and> events (printHosts [''h1'', ''h2'', ''h3''] exampleSys) =
       [Stdout [CHR ''h'', CHR ''1'', CHR 0x0A, CHR ''h'', CHR ''2'', CHR 0x0A, CHR ''h'', CHR ''3'', CHR 0x0A],
        Stderr ([CHR 0x0A] @ ''hosts (3)'' @ [CHR 0x0A])]"
  using ex_list_fields ex_printHosts
  by (simp add: BatchRun_def ex_list_hosts)

lemma ex_nocmd_hosts: "getAllHosts exampleEnv noCommandTask exampleSys = Inr [''h1'', ''h2'', ''h3'']"
  by code_simp

theorem BatchRun_validation_order_witness:
  "getAllHosts exampleEnv noCommandTask exampleSys = Inr [''h1'', ''h2'', ''h3'']
   \<and> \<not> Hosts_List (configFlags noCommandTask) \<and> \<not> preconditionsHold noCommandTask
   \<and> (\<exists>m. BatchRun exampleEnv exampleBatch noCommandTask exampleSys
             = Ok (noCommandTask\<lparr>err := Some m\<rparr>, []) exampleSys)"
proof -
  have 1: "\<not> Hosts_List (configFlags noCommandTask)" "\<not> preconditionsHold noCommandTask"
    by (simp_all add: noCommandTask_def preconditionsHold_def exampleTask_def NewTask_def exampleConfig_def)
  have "getAllHosts exampleEnv noCommandTask exampleSys = Inr [''h1'', ''h2'', ''h3''] \<and>
        \<not> Hosts_List (configFlags noCommandTask) \<and> \<not> preconditionsHold noCommandTask \<longrightarrow>
        (\<exists>m. BatchRun exampleEnv exampleBatch noCommandTask exampleSys
             = Ok (noCommandTask\<lparr>err := Some m\<rparr>, []) exampleSys)"
    by (rule conjunct1 [OF conjunct2 [OF conjunct2 [OF BatchRun_validation_order]]])
  with ex_nocmd_hosts 1 show ?thesis by blast
qed


section \<open>Encrypting a file\<close>

text \<open>
  Claim C8. When the content of the input file is a vault ciphertext
  (\<open>aes.IsAES256CipherText\<close>), the command ends the process with an error and leaves
  the state as it was: nothing is written, no file is changed; once the vault password
  has been obtained that error is \<open>file '...' is already encrypted\<close>. When the content
  is not a ciphertext, the run goes on to \<open>aes.AES256Encode\<close> with the content, and when
  encoding, opening and writing succeed the ciphertext is written: over the input file
  when no output file is given, to standard output for \<open>-\<close>, at the end of the output
  file otherwise.
\<close>

theorem encryptFile_rejects_ciphertext:
  "(fsys s file' = Some content \<and> IsAES256CipherText E content \<longrightarrow>
      (\<exists>msg. encryptFileRun E outputFile file' s = Exit msg s))
   \<and> (fsys s file' = Some content \<and> IsAES256CipherText E content \<and>
       getVaultConfirmPassword E = Inr vaultPass \<longrightarrow>
      encryptFileRun E outputFile file' s
        = Exit (''file '' @ quoted file' @ '' is already encrypted'') s)
   \<and> (fsys s file' = Some content \<and> \<not> IsAES256CipherText E content \<and>
       getVaultConfirmPassword E = Inr vaultPass \<longrightarrow>
      encryptFileRun E outputFile file' s = encryptContent E outputFile file' content vaultPass s)
   \<and> (fsys s file' = Some content \<and> \<not> IsAES256CipherText E content \<and>
       getVaultConfirmPassword E = Inr vaultPass \<and> AES256Encode E content vaultPass = Inr encrypted \<and>
       outputFile = [] \<and> OpenFileErr E file' = None \<and> WriteErr E file' = None \<longrightarrow>
      encryptFileRun E outputFile file' s
        = Ok () (emit (Stdout successMessage) (s\<lparr>fsys := (fsys s)(file' \<mapsto> encrypted)\<rparr>)))
   \<and> (fsys s file' = Some content \<and> \<not> IsAES256CipherText E content \<and>
       getVaultConfirmPassword E = Inr vaultPass \<and> AES256Encode E content vaultPass = Inr encrypted \<and>
       outputFile = ''-'' \<longrightarrow>
      encryptFileRun E outputFile file' s
        = Ok () (emit (Stdout successMessage) (emit (Stdout (encrypted @ [CHR 0x0A])) s)))
   \<and> (fsys s file' = Some content \<and> \<not> IsAES256CipherText E content \<and>
       getVaultConfirmPassword E = Inr vaultPass \<and> AES256Encode E content vaultPass = Inr encrypted \<and>
       outputFile \<noteq> [] \<and> outputFile \<noteq> ''-'' \<and>
       OpenFileErr E outputFile = None \<and> WriteErr E outputFile = None \<longrightarrow>
      encryptFileRun E outputFile file' s
        = Ok () (emit (Stdout successMessage)
            (s\<lparr>fsys := (fsys s)(outputFile \<mapsto>
                 (case fsys s outputFile of None \<Rightarrow> [] | Some old \<Rightarrow> old) @ encrypted)\<rparr>)))"
proof (intro conjI impI)
  assume "fsys s file' = Some content \<and> IsAES256CipherText E content"
  then show "\<exists>msg. encryptFileRun E outputFile file' s = Exit msg s"
    by (cases "getVaultConfirmPassword E")
       (simp_all add: encryptFileRun_def ReadFile_def CheckErr_def)
next
  assume "fsys s file' = Some content \<and> IsAES256CipherText E content \<and>
       getVaultConfirmPassword E = Inr vaultPass"
  then show "encryptFileRun E outputFile file' s
        = Exit (''file '' @ quoted file' @ '' is already encrypted'') s"
    by (simp add: encryptFileRun_def ReadFile_def CheckErr_def)
next
  assume "fsys s file' = Some content \<and> \<not> IsAES256CipherText E content \<and>
       getVaultConfirmPassword E = Inr vaultPass"
  then show "encryptFileRun E outputFile file' s = encryptContent E outputFile file' content vaultPass s"
    by (simp add: encryptFileRun_def ReadFile_def)
next
  assume h: "fsys s file' = Some content \<and> \<not> IsAES256CipherText E content \<and>
       getVaultConfirmPassword E = Inr vaultPass \<and> AES256Encode E content vaultPass = Inr encrypted \<and>
       outputFile = [] \<and> OpenFileErr E file' = None \<and> WriteErr E file' = None"
  then have "encryptFileRun E outputFile file' s = writeEncrypted E [] file' encrypted s"
    by (simp add: encryptFileRun_def ReadFile_def encryptContent_def)
  also from h have "\<dots> = Ok () (emit (Stdout successMessage) (s\<lparr>fsys := (fsys s)(file' \<mapsto> encrypted)\<rparr>))"
    by (simp add: writeEncrypted_def OpenFile_def WriteTo_def CheckErr_def)
  finally show "encryptFileRun E outputFile file' s
        = Ok () (emit (Stdout successMessage) (s\<lparr>fsys := (fsys s)(file' \<mapsto> encrypted)\<rparr>))" .
next
  assume h: "fsys s file' = Some content \<and> \<not> IsAES256CipherText E content \<and>
       getVaultConfirmPassword E = Inr vaultPass \<and> AES256Encode E content vaultPass = Inr encrypted \<and>
       outputFile = ''-''"
  then show "encryptFileRun E outputFile file' s
        = Ok () (emit (Stdout successMessage) (emit (Stdout (encrypted @ [CHR 0x0A])) s))"
    by (simp add: encryptFileRun_def ReadFile_def encryptContent_def writeEncrypted_def)
next
  assume h: "fsys s file' = Some content \<and> \<not> IsAES256CipherText E content \<and>
       getVaultConfirmPassword E = Inr vaultPass \<and> AES256Encode E content vaultPass = Inr encrypted \<and>
       outputFile \<noteq> [] \<and> outputFile \<noteq> ''-'' \<and>
       OpenFileErr E outputFile = None \<and> WriteErr E outputFile = None"
  then have "encryptFileRun E outputFile file' s = writeEncrypted E outputFile file' encrypted s"
    by (simp add: encryptFileRun_def ReadFile_def encryptContent_def)
  also from h have "\<dots> = Ok () (emit (Stdout successMessage)
            (s\<lparr>fsys := (fsys s)(outputFile \<mapsto>
                 (case fsys s outputFile of None \<Rightarrow> [] | Some old \<Rightarrow> old) @ encrypted)\<rparr>))"
    by (cases "fsys s outputFile")
       (simp_all add: writeEncrypted_def OpenFile_def WriteTo_def CheckErr_def Let_def)
  finally show "encryptFileRun E outputFile file' s
        = Ok () (emit (Stdout successMessage)
            (s\<lparr>fsys := (fsys s)(outputFile \<mapsto>
                 (case fsys s outputFile of None \<Rightarrow> [] | Some old \<Rightarrow> old) @ encrypted)\<rparr>))" .
qed

theorem encryptFile_rejects_ciphertext_witness:
  "fsys exampleSys ''/enc'' = Some ''VAULT:abc'' \<and> IsAES256CipherText exampleEnv ''VAULT:abc''
   \<and> getVaultConfirmPassword exampleEnv = Inr ''vaultpw''
   \<and> encryptFileRun exampleEnv [] ''/enc'' exampleSys
       = Exit (''file '' @ quoted ''/enc'' @ '' is already encrypted'') exampleSys
   \<and> fsys exampleSys ''/pw'' = Some '' secret '' \<and> \<not> IsAES256CipherText exampleEnv '' secret ''
   \<and> AES256Encode exampleEnv '' secret '' ''vaultpw'' = Inr ''VAULT: secret ''
   \<and> encryptFileRun exampleEnv [] ''/pw'' exampleSys
       = Ok () (emit (Stdout successMessage)
            (exampleSys\<lparr>fsys := (fsys exampleSys)(''/pw'' \<mapsto> ''VAULT: secret '')\<rparr>))"
proof -
  have 1: "fsys exampleSys ''/enc'' = Some ''VAULT:abc''" "fsys exampleSys ''/pw'' = Some '' secret ''"
    by (simp_all add: exampleSys_def)
  have 2: "IsAES256CipherText exampleEnv ''VAULT:abc''" "\<not> IsAES256CipherText exampleEnv '' secret ''"
    by (simp_all add: exampleEnv_def HasPrefix_def)
  have 3: "getVaultConfirmPassword exampleEnv = Inr ''vaultpw''"
      "AES256Encode exampleEnv '' secret '' ''vaultpw'' = Inr ''VAULT: secret ''"
      "OpenFileErr exampleEnv ''/pw'' = None" "WriteErr exampleEnv ''/pw'' = None"
    by (simp_all add: exampleEnv_def)
  note T = encryptFile_rejects_ciphertext
  have "fsys exampleSys ''/enc'' = Some ''VAULT:abc'' \<and> IsAES256CipherText exampleEnv ''VAULT:abc'' \<and>
       getVaultConfirmPassword exampleEnv = Inr ''vaultpw'' \<longrightarrow>
      encryptFileRun exampleEnv [] ''/enc'' exampleSys
        = Exit (''file '' @ quoted ''/enc'' @ '' is already encrypted'') exampleSys"
    by (rule T [THEN conjunct2, THEN conjunct1])
  with 1 2 3 have a: "encryptFileRun exampleEnv [] ''/enc'' exampleSys
        = Exit (''file '' @ quoted ''/enc'' @ '' is already encrypted'') exampleSys"
    by blast
  have "fsys exampleSys ''/pw'' = Some '' secret '' \<and> \<not> IsAES256CipherText exampleEnv '' secret '' \<and>
       getVaultConfirmPassword exampleEnv = Inr ''vaultpw'' \<and>
       AES256Encode exampleEnv '' secret '' ''vaultpw'' = Inr ''VAULT: secret '' \<and>
       ([]::string) = [] \<and> OpenFileErr exampleEnv ''/pw'' = None \<and> WriteErr exampleEnv ''/pw'' = None \<longrightarrow>
      encryptFileRun exampleEnv [] ''/pw'' exampleSys
       = Ok () (emit (Stdout successMessage)
            (exampleSys\<lparr>fsys := (fsys exampleSys)(''/pw'' \<mapsto> ''VAULT: secret '')\<rparr>))"
    by (rule T [THEN conjunct2, THEN conjunct2, THEN conjunct2, THEN conjunct1])
  with 1 2 3 have b: "encryptFileRun exampleEnv [] ''/pw'' exampleSys
       = Ok () (emit (Stdout successMessage)
            (exampleSys\<lparr>fsys := (fsys exampleSys)(''/pw'' \<mapsto> ''VAULT: secret '')\<rparr>))"
    by blast
  from 1 2 3 a b show ?thesis by (intro conjI)
qed


section \<open>The reported output\<close>

lemma renderOutput_strips_leading_prompt:
  "renderOutput (''Lecture.'' @ [CHR 0x0D, CHR 0x0A] @ ''[sudo] password for root: '' @ [CHR 0x0A] @
                 ''done'' @ [CHR 0x0A]) = ''done''"
  by code_simp

text \<open>
  Claim C6 fails on the source. \<open>HandleOutput\<close> trims the white space of the output
  before it applies the pattern, and both alternatives of the pattern end in a line
  feed. When the prompt is the last line of the captured output, that line matches the
  pattern, but after the trimming it does not, and the prompt is reported.
\<close>

theorem final_prompt_line_reported:
  "matchAt sudoPromptRegex (''[sudo] password for root: '' @ [CHR 0x0A]) = Some []
   \<and> renderOutput (''[sudo] password for root: '' @ [CHR 0x0A]) = ''[sudo] password for root:''
   \<and> events (handleDetail exampleBatch
         \<lparr>d_taskID = ''20220101120000'', d_hostname = ''h1'', d_status = ''success'',
          d_output = ''[sudo] password for root: '' @ [CHR 0x0A]\<rparr> exampleSys)
       = [LogHostInfo ''h1'' ''success'' ''[sudo] password for root:'']"
  by code_simp

section \<open>Runs of a task\<close>



lemma batch_step: "live r \<Longrightarrow> batchStep E B r = Some r' \<Longrightarrow> step E B r r'"
  by (simp add: step_def)

lemma timer_step: "live r \<Longrightarrow> timerStep r = Some r' \<Longrightarrow> step E B r r'"
  by (simp add: step_def)

lemma main_step: "live r \<Longrightarrow> mainStep r = Some r' \<Longrightarrow> step E B r r'"
  by (simp add: step_def)

lemma deliver_details:
  "live r \<Longrightarrow> \<not> detailClosed r \<Longrightarrow> mainPc r = RangeDetail \<Longrightarrow>
   batchPc r = BatchSend (map Detail ds @ rest) \<Longrightarrow>
   steps E B r (r\<lparr>world := foldl (\<lambda>s d. handleDetail B d s) (world r) ds, batchPc := BatchSend rest\<rparr>)"
proof (induction ds arbitrary: r)
  case Nil
  then have "r\<lparr>world := world r, batchPc := BatchSend rest\<rparr> = r" by simp
  then show ?case by simp
next
  case (Cons d ds)
  let ?r1 = "r\<lparr>world := handleDetail B d (world r), batchPc := BatchSend (map Detail ds @ rest)\<rparr>"
  from Cons.prems have "batchStep E B r = Some ?r1" by (simp add: batchStep_def)
  with Cons.prems have 1: "step E B r ?r1" by (simp add: batch_step)
  from Cons.prems have "live ?r1" "\<not> detailClosed ?r1" "mainPc ?r1 = RangeDetail"
      "batchPc ?r1 = BatchSend (map Detail ds @ rest)"
    by (simp_all add: live_def)
  from Cons.IH [OF this]
  have "steps E B ?r1 (r\<lparr>world := foldl (\<lambda>s d. handleDetail B d s) (handleDetail B d (world r)) ds,
          batchPc := BatchSend rest\<rparr>)"
    by simp
  with 1 show ?case by simp
qed


lemma resultLoop_shape:
  "\<exists>ds. fst (resultLoop ok tid vs a b) = map Detail ds \<and> length ds = length vs"
proof (induction vs arbitrary: a b)
  case Nil
  then show ?case by simp
next
  case (Cons v vs)
  let ?d = "\<lparr>d_taskID = tid, d_hostname = Addr v, d_status = Status v, d_output = Message v\<rparr>"
  show ?case
  proof (cases "Status v = ok")
    case True
    from Cons [of "Suc a" b] obtain ds where
      "fst (resultLoop ok tid vs (Suc a) b) = map Detail ds" "length ds = length vs" by blast
    with True have "fst (resultLoop ok tid (v # vs) a b) = map Detail (?d # ds) \<and>
        length (?d # ds) = length (v # vs)"
      by (simp add: case_prod_beta)
    then show ?thesis by blast
  next
    case False
    from Cons [of a "Suc b"] obtain ds where
      "fst (resultLoop ok tid vs a (Suc b)) = map Detail ds" "length ds = length vs" by blast
    with False have "fst (resultLoop ok tid (v # vs) a b) = map Detail (?d # ds) \<and>
        length (?d # ds) = length (v # vs)"
      by (simp add: case_prod_beta)
    then show ?thesis by blast
  qed
qed

lemma resultLoop_counts:
  "fst (snd (resultLoop ok tid vs a b)) + snd (snd (resultLoop ok tid vs a b)) = a + b + length vs"
  by (induction vs arbitrary: a b) (simp_all add: case_prod_beta)

lemma fanOut_shape:
  assumes "fanOut E B t allHosts s = Ok (t', sends) s'"
  shows "\<exists>ds xs. sends = map Detail ds @ map Summary xs \<and> length xs \<le> 1"
proof -
  from assms obtain t1 s1 where b: "buildSSHClient E t s = Ok t1 s1"
    by (auto simp: fanOut_def split: outcome.splits)
  show ?thesis
  proof (cases "sshClient t1")
    case None
    with assms b have "sends = map Detail [] @ map Summary []" by (simp add: fanOut_def)
    then show ?thesis by (metis length_map list.size(3) zero_le)
  next
    case (Some client)
    obtain ds where ds: "fst (resultLoop (SuccessIdentifier B) (taskID t1) (ClientBatchRun B client allHosts) 0 0) = map Detail ds"
      using resultLoop_shape by blast
    from assms b Some obtain x where "sends = fst (resultLoop (SuccessIdentifier B) (taskID t1) (ClientBatchRun B client allHosts) 0 0) @ [Summary x]"
      by (auto simp: fanOut_def split: prod.splits)
    with ds have "sends = map Detail ds @ map Summary [x] \<and> length [x] \<le> 1" by simp
    then show ?thesis by blast
  qed
qed

lemma BatchRun_shape:
  assumes "BatchRun E B t s = Ok (t', sends) s'"
  shows "\<exists>ds xs. sends = map Detail ds @ map Summary xs \<and> length xs \<le> 1"
proof -
  have nil: "sends = [] \<Longrightarrow> ?thesis"
  proof -
    assume "sends = []"
    then have "sends = map Detail [] @ map Summary [] \<and> length ([] :: taskResult list) \<le> 1" by simp
    then show ?thesis by blast
  qed
  show ?thesis
  proof (cases "getAllHosts E t s")
    case (Inl e)
    with assms show ?thesis by (auto simp: BatchRun_def intro: nil)
  next
    case (Inr allHosts)
    show ?thesis
    proof (cases "Hosts_List (configFlags t)")
      case True
      with Inr assms show ?thesis by (auto simp: BatchRun_def intro: nil)
    next
      case False
      with Inr assms obtain t1 s1 where v: "validateTask E t s = Ok t1 s1"
        by (auto simp: BatchRun_def split: outcome.splits)
      show ?thesis
      proof (cases "err t1 = None")
        case True
        with Inr False v assms have "fanOut E B t1 allHosts s1 = Ok (t', sends) s'"
          by (simp add: BatchRun_def)
        then show ?thesis by (rule fanOut_shape)
      next
        case e: False
        with Inr False v assms show ?thesis by (auto simp: BatchRun_def intro: nil)
      qed
    qed
  qed
qed

lemma fanOut_counts:
  assumes "fanOut E B t allHosts s = Ok (t', sends) s'"
  shows "\<exists>ds x client. sshClient t' = Some client \<and> sends = map Detail ds @ [Summary x] \<and>
           length ds = length (ClientBatchRun B client allHosts) \<and>
           hostsSuccessCount x + hostsFailureCount x = length ds"
proof -
  from assms obtain t1 s1 where b: "buildSSHClient E t s = Ok t1 s1"
    by (auto simp: fanOut_def split: outcome.splits)
  then obtain client where c: "sshClient t1 = Some client"
    by (auto simp: buildSSHClient_def Let_def split: outcome.splits prod.splits if_splits)
  let ?rl = "resultLoop (SuccessIdentifier B) (taskID t1) (ClientBatchRun B client allHosts) 0 0"
  obtain ds where ds: "fst ?rl = map Detail ds" "length ds = length (ClientBatchRun B client allHosts)"
    using resultLoop_shape by blast
  let ?x = "\<lparr>r_taskID = taskID t1, hostsSuccessCount = fst (snd ?rl),
             hostsFailureCount = snd (snd ?rl), elapsed = Elapsed E\<rparr>"
  from assms b c have "t' = t1" "sends = fst ?rl @ [Summary ?x]"
    by (auto simp: fanOut_def split: prod.splits)
  moreover have "hostsSuccessCount ?x + hostsFailureCount ?x = length ds"
    using resultLoop_counts [of "SuccessIdentifier B" "taskID t1" "ClientBatchRun B client allHosts" 0 0] ds
    by simp
  ultimately show ?thesis using c ds by blast
qed

lemma batch_completes:
  assumes run: "BatchRun E B t s = Ok (t', map Detail ds @ map Summary xs) s'"
    and xs: "length xs \<le> 1"
  shows "steps E B (Start t s)
           (batchFinished (Start t s) t' (foldl (\<lambda>s d. handleDetail B d s) s' ds) xs)"
proof -
  let ?w = "foldl (\<lambda>s d. handleDetail B d s) s' ds"
  let ?r0 = "Start t s"
  let ?r1 = "?r0\<lparr>task := t', world := s', batchPc := BatchSend (map Detail ds @ map Summary xs)\<rparr>"
  let ?r2 = "?r0\<lparr>task := t', world := ?w, batchPc := BatchSend (map Summary xs)\<rparr>"
  let ?r3 = "?r0\<lparr>task := t', world := ?w, batchPc := BatchSend [], taskBuffer := xs\<rparr>"
  let ?r4 = "?r0\<lparr>task := t', world := ?w, batchPc := BatchCloseDetail, taskBuffer := xs\<rparr>"
  let ?r5 = "?r0\<lparr>task := t', world := ?w, batchPc := BatchCloseTask, detailClosed := True, taskBuffer := xs\<rparr>"
  have l0: "live ?r0" by (simp add: Start_def live_def)
  from run have "batchStep E B ?r0 = Some ?r1" by (simp add: batchStep_def Start_def)
  with l0 have s1: "step E B ?r0 ?r1" by (rule batch_step)
  have "steps E B ?r1 (?r1\<lparr>world := foldl (\<lambda>s d. handleDetail B d s) (world ?r1) ds,
        batchPc := BatchSend (map Summary xs)\<rparr>)"
    by (rule deliver_details) (simp_all add: Start_def live_def)
  then have s2: "steps E B ?r1 ?r2" by simp
  have s3: "steps E B ?r2 ?r3"
  proof (cases xs)
    case Nil
    then have "?r2 = ?r3" by (simp add: Start_def)
    then show ?thesis by simp
  next
    case (Cons x xs')
    with xs have xs1: "xs = [x]" by simp
    then have "batchStep E B ?r2 = Some ?r3" by (simp add: batchStep_def Start_def)
    moreover have "live ?r2" by (simp add: Start_def live_def)
    ultimately have "step E B ?r2 ?r3" by (simp add: batch_step)
    then show ?thesis by blast
  qed
  have "batchStep E B ?r3 = Some ?r4" by (simp add: batchStep_def)
  moreover have "live ?r3" by (simp add: Start_def live_def)
  ultimately have s4: "step E B ?r3 ?r4" by (simp add: batch_step)
  have "batchStep E B ?r4 = Some ?r5" by (simp add: batchStep_def Start_def)
  moreover have "live ?r4" by (simp add: Start_def live_def)
  ultimately have s5: "step E B ?r4 ?r5" by (simp add: batch_step)
  have "batchStep E B ?r5 = Some (batchFinished ?r0 t' ?w xs)"
    by (simp add: batchStep_def Start_def batchFinished_def)
  moreover have "live ?r5" by (simp add: Start_def live_def)
  ultimately have s6: "step E B ?r5 (batchFinished ?r0 t' ?w xs)" by (simp add: batch_step)
  from s1 s2 s3 s4 s5 s6 show ?thesis by simp
qed



lemma deferredClose_step: "step E B r r' \<Longrightarrow> deferredClose r' = deferredClose r"
  by (auto simp: step_def batchStep_def timerStep_def mainStep_def
      split: batchPc.splits timerPc.splits mainPc.splits outcome.splits list.splits send.splits
        if_splits prod.splits)

lemma deferredClose_steps: "steps E B r r' \<Longrightarrow> deferredClose r' = deferredClose r"
  by (induction rule: rtranclp_induct) (simp_all add: deferredClose_step)

lemma never_closed_without_deferred:
  assumes "steps E B (Start t s) r" and "sshAgent t = None"
  shows "deferredClose r = None"
  using deferredClose_steps [OF assms(1)] assms(2) by (simp add: Start_def)

lemma closed_handleDetail [simp]: "closed (handleDetail B d s) = closed s"
  by (simp add: handleDetail_def emit_def Let_def)

lemma dialled_handleDetail [simp]: "dialled (handleDetail B d s) = dialled s"
  by (simp add: handleDetail_def emit_def Let_def)

lemma closed_details [simp]: "closed (foldl (\<lambda>s d. handleDetail B d s) s ds) = closed s"
  by (induction ds arbitrary: s) simp_all

lemma dialled_details [simp]: "dialled (foldl (\<lambda>s d. handleDetail B d s) s ds) = dialled s"
  by (induction ds arbitrary: s) simp_all

lemma closed_summaries [simp]: "closed (foldl (\<lambda>s x. handleSummary x s) s xs) = closed s"
  by (induction xs arbitrary: s) (simp_all add: handleSummary_def emit_def)

lemma dialled_summaries [simp]: "dialled (foldl (\<lambda>s x. handleSummary x s) s xs) = dialled s"
  by (induction xs arbitrary: s) (simp_all add: handleSummary_def emit_def)

lemma main_returns:
  assumes "live r" "mainPc r = RangeDetail" "detailClosed r" "taskClosed r"
    and "taskBuffer r = xs" and "length xs \<le> 1"
    and "timerPc r = NoTimer \<or> timerPc r = Sleeping"
  shows "steps E B r
     (r\<lparr>world := runDeferred (deferredClose r) (foldl (\<lambda>s x. handleSummary x s) (world r) xs),
        mainPc := Returned, taskBuffer := []\<rparr>)"
proof -
  let ?r1 = "r\<lparr>mainPc := RangeTask\<rparr>"
  let ?w = "foldl (\<lambda>s x. handleSummary x s) (world r) xs"
  let ?r2 = "r\<lparr>world := ?w, mainPc := RangeTask, taskBuffer := []\<rparr>"
  let ?r3 = "r\<lparr>world := runDeferred (deferredClose r) ?w, mainPc := Returned, taskBuffer := []\<rparr>"
  from assms have "mainStep r = Some ?r1" by (simp add: mainStep_def)
  with assms have s1: "step E B r ?r1" by (simp add: main_step)
  have s2: "steps E B ?r1 ?r2"
  proof (cases xs)
    case Nil
    with assms have "?r1 = ?r2" by simp
    then show ?thesis by simp
  next
    case (Cons x xs')
    with assms have xs1: "xs = [x]" by simp
    with assms have "mainStep ?r1 = Some ?r2" by (simp add: mainStep_def)
    moreover from assms have "live ?r1" by (simp add: live_def)
    ultimately have "step E B ?r1 ?r2" by (simp add: main_step)
    then show ?thesis by blast
  qed
  from assms have "mainStep ?r2 = Some ?r3" by (simp add: mainStep_def)
  moreover from assms have "live ?r2" by (simp add: live_def)
  ultimately have s3: "step E B ?r2 ?r3" by (simp add: main_step)
  from s1 s2 s3 show ?thesis by simp
qed

lemma natural_completion:
  assumes run: "BatchRun E B t s = Ok (t', map Detail ds @ map Summary xs) s'"
    and xs: "length xs \<le> 1"
  shows "\<exists>r. steps E B (Start t s) r \<and> mainPc r = Returned \<and> panicked r = None \<and> exited r = None
             \<and> task r = t' \<and> batchPc r = BatchDone
             \<and> world r = runDeferred (sshAgent t)
                  (foldl (\<lambda>s x. handleSummary x s) (foldl (\<lambda>s d. handleDetail B d s) s' ds) xs)"
proof -
  let ?w = "foldl (\<lambda>s d. handleDetail B d s) s' ds"
  let ?f = "batchFinished (Start t s) t' ?w xs"
  have 1: "steps E B (Start t s) ?f" using run xs by (rule batch_completes)
  have "steps E B ?f
     (?f\<lparr>world := runDeferred (deferredClose ?f) (foldl (\<lambda>s x. handleSummary x s) (world ?f) xs),
        mainPc := Returned, taskBuffer := []\<rparr>)"
    using xs by (intro main_returns [where xs = xs]) (simp_all add: batchFinished_def Start_def live_def)
  with 1 have "steps E B (Start t s)
     (?f\<lparr>world := runDeferred (deferredClose ?f) (foldl (\<lambda>s x. handleSummary x s) (world ?f) xs),
        mainPc := Returned, taskBuffer := []\<rparr>)"
    by simp
  then show ?thesis
    by (rule_tac x = "?f\<lparr>world := runDeferred (deferredClose ?f) (foldl (\<lambda>s x. handleSummary x s) (world ?f) xs),
        mainPc := Returned, taskBuffer := []\<rparr>" in exI)
       (simp add: batchFinished_def Start_def)
qed

lemma timer_fires:
  assumes "live r" "timerPc r = Sleeping" "\<not> detailClosed r" "\<not> taskClosed r"
  shows "steps E B r
     (r\<lparr>world := emit (LogWarn (timeoutWarning (task r))) (world r), timerPc := TimerDone,
        detailClosed := True, taskClosed := True\<rparr>)"
proof -
  let ?w = "emit (LogWarn (timeoutWarning (task r))) (world r)"
  let ?r1 = "r\<lparr>world := ?w, timerPc := Warned\<rparr>"
  let ?r2 = "r\<lparr>world := ?w, timerPc := ClosedDetail, detailClosed := True\<rparr>"
  let ?r3 = "r\<lparr>world := ?w, timerPc := TimerDone, detailClosed := True, taskClosed := True\<rparr>"
  from assms have "timerStep r = Some ?r1" by (simp add: timerStep_def)
  with assms have s1: "step E B r ?r1" by (simp add: timer_step)
  from assms have "timerStep ?r1 = Some ?r2" by (simp add: timerStep_def)
  moreover from assms have "live ?r1" by (simp add: live_def)
  ultimately have s2: "step E B ?r1 ?r2" by (simp add: timer_step)
  from assms have "timerStep ?r2 = Some ?r3" by (simp add: timerStep_def)
  moreover from assms have "live ?r2" by (simp add: live_def)
  ultimately have s3: "step E B ?r2 ?r3" by (simp add: timer_step)
  from s1 s2 s3 show ?thesis by simp
qed

lemma timeout_then_send_panics:
  assumes t: "0 < Timeout_Task (configFlags t)"
    and run: "BatchRun E B t (emit (LogWarn (timeoutWarning t)) s) = Ok (t', x # sends) s'"
  shows "\<exists>r. steps E B (Start t s) r \<and> panicked r = Some SendOnClosedChannel
            \<and> timerPc r = TimerDone \<and> mainPc r = RangeDetail \<and> batchPc r = BatchSend (x # sends)
            \<and> detailClosed r \<and> taskClosed r"
proof -
  let ?r0 = "Start t s"
  let ?r1 = "?r0\<lparr>world := emit (LogWarn (timeoutWarning t)) s, timerPc := TimerDone,
        detailClosed := True, taskClosed := True\<rparr>"
  let ?r2 = "?r1\<lparr>task := t', world := s', batchPc := BatchSend (x # sends)\<rparr>"
  let ?r3 = "?r2\<lparr>panicked := Some SendOnClosedChannel\<rparr>"
  have "steps E B ?r0 (?r0\<lparr>world := emit (LogWarn (timeoutWarning (task ?r0))) (world ?r0),
        timerPc := TimerDone, detailClosed := True, taskClosed := True\<rparr>)"
    using t by (intro timer_fires) (simp_all add: Start_def live_def)
  then have s1: "steps E B ?r0 ?r1" by (simp add: Start_def)
  from run have "batchStep E B ?r1 = Some ?r2" by (simp add: batchStep_def Start_def)
  moreover have "live ?r1" by (simp add: Start_def live_def)
  ultimately have s2: "step E B ?r1 ?r2" by (simp add: batch_step)
  have "batchStep E B ?r2 = Some ?r3" by (cases x) (simp_all add: batchStep_def)
  moreover have "live ?r2" by (simp add: Start_def live_def)
  ultimately have s3: "step E B ?r2 ?r3" by (simp add: batch_step)
  from s1 s2 s3 have "steps E B ?r0 ?r3" by simp
  then show ?thesis
    by (rule_tac x = ?r3 in exI) (simp add: Start_def)
qed

text \<open>
  Claim C9. The timer goroutine closes each channel without regard to whether it is
  closed already: in a state where the channel it is about to close is closed, its
  step is the panic \<open>close of closed channel\<close>. Hence, with a positive task timeout and
  a \<open>BatchRun\<close> that returns, there is a run in which the batch goroutine completes and
  makes both deferred closes while the timer is still asleep, and the timer then
  wakes, logs its warning and panics on closing \<open>t.detailOutput\<close> a second time.
\<close>

theorem timer_closes_closed_channel:
  "(timerPc r = Warned \<and> detailClosed r \<longrightarrow>
      timerStep r = Some (r\<lparr>panicked := Some CloseOfClosedChannel\<rparr>))
   \<and> (timerPc r = ClosedDetail \<and> taskClosed r \<longrightarrow>
      timerStep r = Some (r\<lparr>panicked := Some CloseOfClosedChannel\<rparr>))
   \<and> (0 < Timeout_Task (configFlags t) \<and> BatchRun E B t s = Ok (t', sends) s' \<longrightarrow>
      (\<exists>r1 r2. steps E B (Start t s) r1 \<and> batchPc r1 = BatchDone \<and> timerPc r1 = Sleeping \<and>
          panicked r1 = None \<and> detailClosed r1 \<and> taskClosed r1 \<and>
          steps E B r1 r2 \<and> timerPc r2 = Warned \<and> panicked r2 = Some CloseOfClosedChannel))"
proof (intro conjI impI)
  assume "timerPc r = Warned \<and> detailClosed r"
  then show "timerStep r = Some (r\<lparr>panicked := Some CloseOfClosedChannel\<rparr>)"
    by (simp add: timerStep_def)
next
  assume "timerPc r = ClosedDetail \<and> taskClosed r"
  then show "timerStep r = Some (r\<lparr>panicked := Some CloseOfClosedChannel\<rparr>)"
    by (simp add: timerStep_def)
next
  assume h: "0 < Timeout_Task (configFlags t) \<and> BatchRun E B t s = Ok (t', sends) s'"
  then obtain ds xs where sh: "sends = map Detail ds @ map Summary xs" "length xs \<le> 1"
    using BatchRun_shape by blast
  let ?w = "foldl (\<lambda>s d. handleDetail B d s) s' ds"
  let ?r1 = "batchFinished (Start t s) t' ?w xs"
  let ?r2 = "?r1\<lparr>world := emit (LogWarn (timeoutWarning (task ?r1))) (world ?r1), timerPc := Warned\<rparr>"
  let ?r3 = "?r2\<lparr>panicked := Some CloseOfClosedChannel\<rparr>"
  from h sh have 1: "steps E B (Start t s) ?r1" by (simp add: batch_completes)
  from h have p: "batchPc ?r1 = BatchDone" "timerPc ?r1 = Sleeping" "panicked ?r1 = None"
      "detailClosed ?r1" "taskClosed ?r1" "live ?r1"
    by (simp_all add: batchFinished_def Start_def live_def)
  then have "timerStep ?r1 = Some ?r2" by (simp add: timerStep_def)
  with p have s2: "step E B ?r1 ?r2" by (simp add: timer_step)
  from p have "timerStep ?r2 = Some ?r3" by (simp add: timerStep_def)
  moreover from p have "live ?r2" by (simp add: live_def)
  ultimately have s3: "step E B ?r2 ?r3" by (simp add: timer_step)
  from s2 s3 have 2: "steps E B ?r1 ?r3" by simp
  have "timerPc ?r3 = Warned" "panicked ?r3 = Some CloseOfClosedChannel" by simp_all
  with 1 2 p show "\<exists>r1 r2. steps E B (Start t s) r1 \<and> batchPc r1 = BatchDone \<and> timerPc r1 = Sleeping \<and>
          panicked r1 = None \<and> detailClosed r1 \<and> taskClosed r1 \<and>
          steps E B r1 r2 \<and> timerPc r2 = Warned \<and> panicked r2 = Some CloseOfClosedChannel"
    by blast
qed


lemma ex_run:
  "(case BatchRun exampleEnv exampleBatch exampleTask exampleSys of
      Exit msg s' \<Rightarrow> False
    | Ok (t', sends) s' \<Rightarrow>
        sends = map Detail
                  [\<lparr>d_taskID = ''20220101120000'', d_hostname = ''h1'', d_status = ''success'', d_output = ''up''\<rparr>,
                   \<lparr>d_taskID = ''20220101120000'', d_hostname = ''h2'', d_status = ''failed'', d_output = ''up''\<rparr>,
                   \<lparr>d_taskID = ''20220101120000'', d_hostname = ''h3'', d_status = ''success'', d_output = ''up''\<rparr>]
                @ map Summary
                  [\<lparr>r_taskID = ''20220101120000'', hostsSuccessCount = 2, hostsFailureCount = 1, elapsed = 3\<rparr>]
        \<and> sshAgent t' = Some (Conn 0) \<and> dialled s' = 1 \<and> closed s' = [])"
  by code_simp

lemma ex_timeout_run:
  "(case BatchRun exampleEnv exampleBatch timeoutTask (emit (LogWarn (timeoutWarning timeoutTask)) exampleSys) of
      Exit msg s' \<Rightarrow> False
    | Ok (t', sends) s' \<Rightarrow> (case sends of [] \<Rightarrow> False | x # rest \<Rightarrow> True))"
  by code_simp

lemma ex_timeout_run2:
  "(case BatchRun exampleEnv exampleBatch timeoutTask exampleSys of
      Exit msg s' \<Rightarrow> False
    | Ok (t', sends) s' \<Rightarrow> True)"
  by code_simp

text \<open>
  Claim C7 fails on the source. \<open>Start\<close> tests \<open>t.sshAgent\<close> before it launches the
  goroutine whose \<open>BatchRun\<close> opens the connection, so the \<open>Close\<close> is not deferred. In
  the example the socket is set and can be dialled: there is a run that returns from
  \<open>Start\<close> without a panic, with one connection opened, stored in \<open>t.sshAgent\<close>, and
  \<open>Close\<close> never called.
\<close>

theorem agent_connection_left_open:
  "\<exists>r. steps exampleEnv exampleBatch (Start exampleTask exampleSys) r \<and> mainPc r = Returned \<and>
        panicked r = None \<and> exited r = None \<and> sshAgent (task r) = Some (Conn 0) \<and>
        dialled (world r) = 1 \<and> closed (world r) = []"
proof -
  from ex_run obtain t' sends s' where
      run0: "BatchRun exampleEnv exampleBatch exampleTask exampleSys = Ok (t', sends) s'"
      and p: "sshAgent t' = Some (Conn 0)" "dialled s' = 1" "closed s' = []"
    by (cases "BatchRun exampleEnv exampleBatch exampleTask exampleSys") (auto split: prod.splits)
  from BatchRun_shape [OF run0] obtain ds xs where
      sh: "sends = map Detail ds @ map Summary xs" and xs: "length xs \<le> 1"
    by blast
  from run0 sh have
      run: "BatchRun exampleEnv exampleBatch exampleTask exampleSys = Ok (t', map Detail ds @ map Summary xs) s'"
    by simp
  have a: "sshAgent exampleTask = None" by (simp add: exampleTask_def NewTask_def)
  from natural_completion [OF run xs] obtain r where
      "steps exampleEnv exampleBatch (Start exampleTask exampleSys) r" "mainPc r = Returned"
      "panicked r = None" "exited r = None" "task r = t'"
      "world r = runDeferred (sshAgent exampleTask)
          (foldl (\<lambda>s x. handleSummary x s) (foldl (\<lambda>s d. handleDetail exampleBatch d s) s' ds) xs)"
    by blast
  with p a show ?thesis
    by (rule_tac x = r in exI) (simp add: runDeferred_def)
qed

text \<open>
  Claim C5 fails on the source. In the example with a task timeout of one second there
  is a run in which the timer fires before the batch has sent anything: it logs the
  warning and closes both channels, and the batch goroutine then panics with \<open>send on
  closed channel\<close> on its first result, while \<open>Start\<close> has not returned.
\<close>

theorem timeout_send_on_closed_channel:
  "\<exists>r. steps exampleEnv exampleBatch (Start timeoutTask exampleSys) r \<and> timerPc r = TimerDone \<and>
        detailClosed r \<and> taskClosed r \<and> mainPc r = RangeDetail \<and>
        (case batchPc r of BatchSend (x # rest) \<Rightarrow> True | _ \<Rightarrow> False) \<and>
        panicked r = Some SendOnClosedChannel"
proof -
  from ex_timeout_run obtain t' x sends s' where
      run: "BatchRun exampleEnv exampleBatch timeoutTask (emit (LogWarn (timeoutWarning timeoutTask)) exampleSys)
              = Ok (t', x # sends) s'"
    by (cases "BatchRun exampleEnv exampleBatch timeoutTask (emit (LogWarn (timeoutWarning timeoutTask)) exampleSys)")
       (auto split: prod.splits list.splits)
  have t: "0 < Timeout_Task (configFlags timeoutTask)" by (simp add: timeoutTask_def)
  from timeout_then_send_panics [OF t run] obtain r where
      "steps exampleEnv exampleBatch (Start timeoutTask exampleSys) r"
      "panicked r = Some SendOnClosedChannel" "timerPc r = TimerDone" "mainPc r = RangeDetail"
      "batchPc r = BatchSend (x # sends)" "detailClosed r" "taskClosed r"
    by blast
  then show ?thesis
    by (rule_tac x = r in exI) simp
qed

theorem timer_closes_closed_channel_witness:
  "0 < Timeout_Task (configFlags timeoutTask)
   \<and> (\<exists>t' sends s'. BatchRun exampleEnv exampleBatch timeoutTask exampleSys = Ok (t', sends) s')
   \<and> (\<exists>r1 r2. steps exampleEnv exampleBatch (Start timeoutTask exampleSys) r1 \<and> batchPc r1 = BatchDone \<and>
          timerPc r1 = Sleeping \<and> panicked r1 = None \<and> detailClosed r1 \<and> taskClosed r1 \<and>
          steps exampleEnv exampleBatch r1 r2 \<and> timerPc r2 = Warned \<and>
          panicked r2 = Some CloseOfClosedChannel)"
proof -
  have t: "0 < Timeout_Task (configFlags timeoutTask)" by (simp add: timeoutTask_def)
  from ex_timeout_run2 obtain t' sends s' where
      run: "BatchRun exampleEnv exampleBatch timeoutTask exampleSys = Ok (t', sends) s'"
    by (cases "BatchRun exampleEnv exampleBatch timeoutTask exampleSys") (auto split: prod.splits)
  have "0 < Timeout_Task (configFlags timeoutTask) \<and>
        BatchRun exampleEnv exampleBatch timeoutTask exampleSys = Ok (t', sends) s' \<longrightarrow>
      (\<exists>r1 r2. steps exampleEnv exampleBatch (Start timeoutTask exampleSys) r1 \<and> batchPc r1 = BatchDone \<and>
          timerPc r1 = Sleeping \<and> panicked r1 = None \<and> detailClosed r1 \<and> taskClosed r1 \<and>
          steps exampleEnv exampleBatch r1 r2 \<and> timerPc r2 = Warned \<and>
          panicked r2 = Some CloseOfClosedChannel)"
    by (rule timer_closes_closed_channel [THEN conjunct2, THEN conjunct2])
  with t run show ?thesis by blast
qed


end
